theory Spec2Isabelle
  imports Main "HOL-Library.AList"
begin

section \<open>Folder management of the wiki builder (build/manageFolder.js)\<close>

text \<open>
  A shallow embedding of the module \<^verbatim>\<open>manageFolder\<close>. JavaScript strings are modelled as
  \<^typ>\<open>string\<close>; every pattern of the module is written out as a function on character
  lists. The one literal outside ASCII (the Chinese home page name) is given by its
  UTF-8 bytes; lengths count bytes, which is what JavaScript counts on an ASCII path.
  A value that is either a string or \<^verbatim>\<open>false\<close> is a \<^typ>\<open>string option\<close>, with
  \<^term>\<open>None\<close> for \<^verbatim>\<open>false\<close>.
\<close>

subsection \<open>Characters and patterns\<close>

definition slash :: char where
  "slash = CHR ''/''"

definition backslash :: char where
  "backslash = CHR 0x5C"

text \<open>The character class \<^verbatim>\<open>[a-zA-Z]\<close>.\<close>

definition is_letter :: "char \<Rightarrow> bool" where
  "is_letter c = (let k = (of_char c :: nat) in (65 \<le> k \<and> k \<le> 90) \<or> (97 \<le> k \<and> k \<le> 122))"

text \<open>\<^verbatim>\<open>s.replace(/\\/g, '/')\<close>: every backslash becomes a slash.\<close>

definition normalize_separators :: "string \<Rightarrow> string" where
  "normalize_separators s = map (\<lambda>c. if c = backslash then slash else c) s"

text \<open>\<^verbatim>\<open>/^[a-zA-Z]:/.test(s)\<close>\<close>

fun test_drive_letter :: "string \<Rightarrow> bool" where
  "test_drive_letter (c # d # _) = (is_letter c \<and> d = CHR '':'')"
| "test_drive_letter _ = False"

text \<open>\<^verbatim>\<open>s.replace('/', '')\<close>: a string pattern replaces the first occurrence only.\<close>

definition remove_first_slash :: "string \<Rightarrow> string" where
  "remove_first_slash s = remove1 slash s"

text \<open>\<^verbatim>\<open>s.indexOf('/') < 0\<close>\<close>

definition no_slash :: "string \<Rightarrow> bool" where
  "no_slash s = (slash \<notin> set s)"

text \<open>\<^verbatim>\<open>s.replace(/\/$/, '')\<close>: one trailing slash is removed.\<close>

definition strip_trailing_slash :: "string \<Rightarrow> string" where
  "strip_trailing_slash s = (if s \<noteq> [] \<and> last s = slash then butlast s else s)"

text \<open>
  \<^verbatim>\<open>s.replace(/\/[^\/]+$/, '/')\<close>: the pattern matches the last slash together with a
  non-empty run of other characters up to the end; where it does not match, the string
  is returned as it is.
\<close>

definition strip_last_segment :: "string \<Rightarrow> string" where
  "strip_last_segment s =
     (let r = rev s; seg = takeWhile (\<lambda>c. c \<noteq> slash) r; rest = dropWhile (\<lambda>c. c \<noteq> slash) r
      in if seg \<noteq> [] \<and> rest \<noteq> [] then rev rest else s)"

subsection \<open>getParentFolder\<close>

definition getParentFolder :: "string \<Rightarrow> string option" where
  "getParentFolder path0 =
     (let path = normalize_separators path0 in
      if test_drive_letter path \<and> length path < 3 then None
      else if no_slash (remove_first_slash path) then None
      else Some (strip_last_segment (strip_trailing_slash path)))"

text \<open>
  The contract in the words of the specification: the number of separators decides
  whether there is a parent, and the parent is the path without one trailing separator
  and without the characters after the last separator that is left.
\<close>

definition separator_count :: "string \<Rightarrow> nat" where
  "separator_count s = length (filter (\<lambda>c. c = slash) s)"

definition drop_final_segment :: "string \<Rightarrow> string" where
  "drop_final_segment s = rev (dropWhile (\<lambda>c. c \<noteq> slash) (rev s))"

definition getParentFolder_spec :: "string \<Rightarrow> string option" where
  "getParentFolder_spec path0 =
     (let path = normalize_separators path0 in
      if (test_drive_letter path \<and> length path < 3) \<or> separator_count path \<le> 1 then None
      else Some (drop_final_segment (strip_trailing_slash path)))"

subsection \<open>Errors, results and the file system\<close>

text \<open>
  An exception is a value: a function that may throw returns an \<open>outcome\<close>. What a call
  writes to the console (\<^verbatim>\<open>console.error\<close>, \<^verbatim>\<open>console.warn\<close>) is returned beside its
  outcome, in order.
\<close>

datatype error = TypeError | SystemError string

datatype 'a outcome = Return 'a | Raise error

datatype console = Error error | Warn string

text \<open>
  The module \<^verbatim>\<open>fs\<close> of the platform is a parameter. A value of type \<open>fs\<close> is the file
  system as the reading calls see it at one moment: \<^verbatim>\<open>readdirSync\<close> gives the names in a
  directory or fails, \<^verbatim>\<open>statSync(p).isDirectory()\<close> gives a truth value or fails, and
  \<^verbatim>\<open>existsSync\<close> never fails. The writing calls take such a file system to the next one
  or fail; nothing more is assumed about them.
\<close>

record fs =
  readdirSync :: "string \<Rightarrow> error + string list"
  statSync :: "string \<Rightarrow> error + bool"
  existsSync :: "string \<Rightarrow> bool"

record fs_ops =
  unlinkSync :: "fs \<Rightarrow> string \<Rightarrow> error + fs"
  rmdirSync :: "fs \<Rightarrow> string \<Rightarrow> error + fs"
  mkdirSync :: "fs \<Rightarrow> string \<Rightarrow> nat \<Rightarrow> error + fs"

subsection \<open>The tree, the entry list and the file list\<close>

text \<open>
  A tree is a JavaScript object, modelled by its own properties: names, each bound to
  \<^verbatim>\<open>false\<close> (a file) or to the tree of a folder; \<^term>\<open>map_of\<close> reads a property. The list
  keeps the order of insertion, which is the order JavaScript lists the names in unless a
  name is the decimal form of a number; nothing below depends on that order.
\<close>

datatype tree_value = Leaf_false | Subtree "(string \<times> tree_value) list"

type_synonym tree = "(string \<times> tree_value) list"

text \<open>
  The assignment \<^verbatim>\<open>tree[name] = value\<close> sets the property, or adds it at the end. One name
  is not a property of an object made by \<^verbatim>\<open>{}\<close>: assigning to \<^verbatim>\<open>__proto__\<close> calls the
  setter that objects inherit, which changes the prototype when the value is an object and
  does nothing when it is \<^verbatim>\<open>false\<close>; no own property is made in either case.
\<close>

definition assign :: "string \<Rightarrow> tree_value \<Rightarrow> tree \<Rightarrow> tree" where
  "assign name v tree = (if name = ''__proto__'' then tree else AList.update name v tree)"

datatype entry_type = File | Folder

record entry =
  entry_depth :: nat
  entry_type :: entry_type
  entry_name :: string
  entry_path :: string

type_synonym scan = "tree \<times> entry list \<times> string list"

subsection \<open>The tree walker\<close>

text \<open>\<^verbatim>\<open>/^\./.test(fileName)\<close>\<close>

fun test_hidden :: "string \<Rightarrow> bool" where
  "test_hidden (c # _) = (c = CHR ''.'')"
| "test_hidden [] = False"

text \<open>\<^verbatim>\<open>filePath = dirPath + (depth > 0 ? '/' : '') + fileName\<close>\<close>

definition filePath :: "string \<Rightarrow> nat \<Rightarrow> string \<Rightarrow> string" where
  "filePath dirPath depth fileName = dirPath @ (if depth > 0 then ''/'' else []) @ fileName"

text \<open>
  The walker (\<^verbatim>\<open>_listSubFolder\<close> in the source) recurses as deep as the directories go,
  so it takes fuel: one unit for each level of the recursion, and \<^term>\<open>None\<close> when the
  fuel is used up. \<open>listSubFolder_for\<close> is the loop inside the \<^verbatim>\<open>try\<close> block: it returns
  the exception that ended it, if any, with the accumulators as they were at that moment,
  since the three accumulators are mutated in place and the function returns them after
  the \<^verbatim>\<open>catch\<close> clause as they are.
\<close>

fun listSubFolder ::
    "fs \<Rightarrow> nat \<Rightarrow> string \<Rightarrow> nat \<Rightarrow> tree \<Rightarrow> entry list \<Rightarrow> string list
     \<Rightarrow> (scan outcome \<times> console list) option"
  and listSubFolder_for ::
    "fs \<Rightarrow> nat \<Rightarrow> string \<Rightarrow> nat \<Rightarrow> string list \<Rightarrow> tree \<Rightarrow> entry list \<Rightarrow> string list
     \<Rightarrow> (error option \<times> scan \<times> console list) option"
where
  "listSubFolder fs 0 dirPath depth tree list files = None"
| "listSubFolder fs (Suc n) dirPath depth tree list files =
     (case readdirSync fs dirPath of
        Inl err \<Rightarrow> Some (Return (tree, list, files), [Error err])
      | Inr names \<Rightarrow>
          (case listSubFolder_for fs n dirPath depth names tree list files of
             None \<Rightarrow> None
           | Some (None, acc, out) \<Rightarrow> Some (Return acc, out)
           | Some (Some err, acc, out) \<Rightarrow> Some (Return acc, out @ [Error err])))"
| "listSubFolder_for fs n dirPath depth [] tree list files =
     Some (None, (tree, list, files), [])"
| "listSubFolder_for fs n dirPath depth (fileName # rest) tree list files =
     (if test_hidden fileName then listSubFolder_for fs n dirPath depth rest tree list files
      else
        (case statSync fs (filePath dirPath depth fileName) of
           Inl err \<Rightarrow> Some (Some err, (tree, list, files), [])
         | Inr True \<Rightarrow>
             (case listSubFolder fs n (filePath dirPath depth fileName) (depth + 1) [] [] [] of
                None \<Rightarrow> None
              | Some (Raise err, out) \<Rightarrow> Some (Some err, (tree, list, files), out)
              | Some (Return (tempTree, tempList, tempFiles), out) \<Rightarrow>
                  (case listSubFolder_for fs n dirPath depth rest
                          (assign fileName (Subtree tempTree) tree)
                          (list @ \<lparr>entry_depth = depth, entry_type = Folder,
                                    entry_name = fileName, entry_path = dirPath\<rparr> # tempList)
                          (files @ tempFiles) of
                     None \<Rightarrow> None
                   | Some (err, acc, out') \<Rightarrow> Some (err, acc, out @ out')))
         | Inr False \<Rightarrow>
             (if depth > 0 then
                listSubFolder_for fs n dirPath depth rest
                  (assign fileName Leaf_false tree)
                  (list @ [\<lparr>entry_depth = depth, entry_type = File,
                            entry_name = fileName, entry_path = dirPath\<rparr>])
                  (files @ [filePath dirPath depth fileName])
              else listSubFolder_for fs n dirPath depth rest tree list files)))"

subsection \<open>readLibraryTree\<close>

text \<open>\<^verbatim>\<open>/library[\\\/]$/.test(path)\<close>: the path ends with the seven letters and one separator.\<close>

definition test_library_separator :: "string \<Rightarrow> bool" where
  "test_library_separator path =
     (let t = drop (length path - 8) path
      in 8 \<le> length path \<and> butlast t = ''library'' \<and> (last t = backslash \<or> last t = slash))"

text \<open>
  The dot of a pattern matches every character but a line terminator: line feed, carriage
  return, and the two separators U+2028 and U+2029, which are three bytes each here.
\<close>

fun has_substring :: "string \<Rightarrow> string \<Rightarrow> bool" where
  "has_substring [] sub = (sub = [])"
| "has_substring (c # cs) sub = (take (length sub) (c # cs) = sub \<or> has_substring cs sub)"

definition no_line_terminator :: "string \<Rightarrow> bool" where
  "no_line_terminator s =
     (CHR 0x0A \<notin> set s \<and> CHR 0x0D \<notin> set s \<and>
      \<not> has_substring s [CHR 0xE2, CHR 0x80, CHR 0xA8] \<and> \<not> has_substring s [CHR 0xE2, CHR 0x80, CHR 0xA9])"

text \<open>The home page name of the Chinese edition, two characters and \<^verbatim>\<open>.md\<close>.\<close>

definition home_zh :: string where
  "home_zh = [CHR 0xE9, CHR 0xA6, CHR 0x96, CHR 0xE9, CHR 0xA1, CHR 0xB5] @ ''.md''"

text \<open>\<^verbatim>\<open>/^home[-_].*?\.md$/.test(fileName) || fileName === home_zh\<close>\<close>

definition test_home :: "string \<Rightarrow> bool" where
  "test_home fileName =
     ((8 \<le> length fileName \<and> take 4 fileName = ''home'' \<and>
       (fileName ! 4 = CHR ''-'' \<or> fileName ! 4 = CHR ''_'') \<and>
       no_line_terminator (take (length fileName - 8) (drop 5 fileName)) \<and>
       drop (length fileName - 3) fileName = ''.md'')
      \<or> fileName = home_zh)"

text \<open>The loop that seeds the tree: it stops at the first name that matches.\<close>

fun seed_home :: "string list \<Rightarrow> tree \<Rightarrow> tree" where
  "seed_home [] tree = tree"
| "seed_home (fileName # rest) tree =
     (if test_home fileName then assign fileName Leaf_false tree else seed_home rest tree)"

text \<open>
  The result is the empty array (\<^term>\<open>None\<close>) or the three results of the walker. The
  directory is read here outside any \<^verbatim>\<open>try\<close> block.
\<close>

definition readLibraryTree ::
    "fs \<Rightarrow> nat \<Rightarrow> string \<Rightarrow> (scan option outcome \<times> console list) option" where
  "readLibraryTree fs fuel path =
     (if \<not> test_library_separator path
      then Some (Return None, [Warn ''The path is not a library.''])
      else
        (case readdirSync fs path of
           Inl err \<Rightarrow> Some (Raise err, [])
         | Inr names \<Rightarrow>
             (case listSubFolder fs fuel path 0 (seed_home names []) [] [] of
                None \<Rightarrow> None
              | Some (Raise err, out) \<Rightarrow> Some (Raise err, out)
              | Some (Return result, out) \<Rightarrow> Some (Return (Some result), out))))"

subsection \<open>cleanFolder\<close>

text \<open>
  \<^verbatim>\<open>path.replace(/[\\\/]?&/, '/')\<close>: the first ampersand, with a separator before it if
  there is one, becomes a slash; a path without an ampersand is unchanged.
\<close>

definition replace_ampersand :: "string \<Rightarrow> string" where
  "replace_ampersand path =
     (let before = takeWhile (\<lambda>c. c \<noteq> CHR ''&'') path;
          after = drop (Suc (length before)) path
      in if CHR ''&'' \<notin> set path then path
         else if before \<noteq> [] \<and> (last before = backslash \<or> last before = slash)
           then butlast before @ ''/'' @ after
         else before @ ''/'' @ after)"

text \<open>
  The folder is read once, before anything is deleted. Every call on the file system
  stands outside any \<^verbatim>\<open>try\<close> block; the file system reached when an exception is thrown
  is returned with it.
\<close>

fun cleanFolder :: "fs_ops \<Rightarrow> nat \<Rightarrow> fs \<Rightarrow> string \<Rightarrow> (unit outcome \<times> fs) option"
  and cleanFolder_for ::
    "fs_ops \<Rightarrow> nat \<Rightarrow> fs \<Rightarrow> string \<Rightarrow> string list \<Rightarrow> (unit outcome \<times> fs) option"
where
  "cleanFolder ops 0 fs path = None"
| "cleanFolder ops (Suc n) fs path =
     (case readdirSync fs path of
        Inl err \<Rightarrow> Some (Raise err, fs)
      | Inr list \<Rightarrow> cleanFolder_for ops n fs path list)"
| "cleanFolder_for ops n fs path [] = Some (Return (), fs)"
| "cleanFolder_for ops n fs path (item # rest) =
     (case statSync fs (replace_ampersand path @ item) of
        Inl err \<Rightarrow> Some (Raise err, fs)
      | Inr True \<Rightarrow>
          (if \<not> test_hidden item then
             (case cleanFolder ops n fs (replace_ampersand path @ item) of
                None \<Rightarrow> None
              | Some (Raise err, fs1) \<Rightarrow> Some (Raise err, fs1)
              | Some (Return _, fs1) \<Rightarrow>
                  (case rmdirSync ops fs1 (replace_ampersand path @ item) of
                     Inl err \<Rightarrow> Some (Raise err, fs1)
                   | Inr fs2 \<Rightarrow> cleanFolder_for ops n fs2 path rest))
           else cleanFolder_for ops n fs path rest)
      | Inr False \<Rightarrow>
          (case unlinkSync ops fs (replace_ampersand path @ item) of
             Inl err \<Rightarrow> Some (Raise err, fs)
           | Inr fs1 \<Rightarrow> cleanFolder_for ops n fs1 path rest))"

subsection \<open>createFolder\<close>

text \<open>
  \<^verbatim>\<open>fs.existsSync\<close> answers \<^verbatim>\<open>false\<close> for an argument that is not a path, and
  \<^verbatim>\<open>getParentFolder\<close> applied to \<^verbatim>\<open>false\<close> throws a TypeError, since \<^verbatim>\<open>false\<close> has no
  method \<^verbatim>\<open>replace\<close>. The function calls itself twice when the parent is missing, so it
  takes fuel as the walker does. The mode \<^verbatim>\<open>0o777\<close> is the number 511.
\<close>

definition existsSync_value :: "fs \<Rightarrow> string option \<Rightarrow> bool" where
  "existsSync_value fs path = (case path of None \<Rightarrow> False | Some p \<Rightarrow> existsSync fs p)"

fun createFolder :: "fs_ops \<Rightarrow> nat \<Rightarrow> fs \<Rightarrow> string option \<Rightarrow> (unit outcome \<times> fs) option" where
  "createFolder ops 0 fs path = None"
| "createFolder ops (Suc n) fs None = Some (Raise TypeError, fs)"
| "createFolder ops (Suc n) fs (Some path) =
     (if \<not> existsSync_value fs (getParentFolder path) then
        (case createFolder ops n fs (getParentFolder path) of
           None \<Rightarrow> None
         | Some (Raise err, fs1) \<Rightarrow> Some (Raise err, fs1)
         | Some (Return _, fs1) \<Rightarrow> createFolder ops n fs1 (Some path))
      else
        (if \<not> existsSync fs path then
           (case mkdirSync ops fs path 511 of
              Inl err \<Rightarrow> Some (Raise err, fs)
            | Inr fs1 \<Rightarrow> Some (Return (), fs1))
         else Some (Return (), fs)))"

subsection \<open>getLibraryFolder and getLevel1Id\<close>

text \<open>\<^verbatim>\<open>/library\/?$/.test(path)\<close>\<close>

definition test_library_end :: "string \<Rightarrow> bool" where
  "test_library_end path =
     (let p = strip_trailing_slash path
      in 7 \<le> length p \<and> drop (length p - 7) p = ''library'')"

text \<open>
  \<^verbatim>\<open>!path\<close> holds of \<^verbatim>\<open>false\<close> and of the empty string. \<^verbatim>\<open>path.replace(/\/?$/, '/')\<close>
  leaves a path with exactly the trailing slash it had or gives it one. Each call on the
  parent is on a shorter string, so the search ends.
\<close>

function getLibraryFolder :: "fs \<Rightarrow> string option \<Rightarrow> string option" where
  "getLibraryFolder fs None = None"
| "getLibraryFolder fs (Some path) =
     (if path = [] then None
      else if \<not> has_substring path ''library'' then
        (if existsSync fs (path @ ''/library/'')
         then Some (strip_trailing_slash path @ ''/library/'')
         else getLibraryFolder fs (getParentFolder path))
      else
        (if test_library_end path
         then Some (strip_trailing_slash path @ ''/'')
         else getLibraryFolder fs (getParentFolder path)))"
  by pat_completeness auto
termination
proof -
  have seg: "length (strip_last_segment t) \<le> length t" for t
    by (simp add: strip_last_segment_def Let_def)
      (metis length_dropWhile_le length_rev)
  have seg': "length (strip_last_segment t) < length t"
    if "slash \<in> set t" "last t \<noteq> slash" for t
  proof -
    from that have "t \<noteq> []" by auto
    with that have tw: "takeWhile (\<lambda>c. c \<noteq> slash) (rev t) \<noteq> []"
      by (cases t rule: rev_cases) auto
    from that have dw: "dropWhile (\<lambda>c. c \<noteq> slash) (rev t) \<noteq> []"
      by (simp add: dropWhile_eq_Nil_conv)
    have "length (takeWhile (\<lambda>c. c \<noteq> slash) (rev t)) +
          length (dropWhile (\<lambda>c. c \<noteq> slash) (rev t)) = length t"
      by (metis length_append length_rev takeWhile_dropWhile_id)
    with tw have "length (dropWhile (\<lambda>c. c \<noteq> slash) (rev t)) < length t"
      by (cases "takeWhile (\<lambda>c. c \<noteq> slash) (rev t)") auto
    then show ?thesis using tw dw
      by (simp add: strip_last_segment_def Let_def)
  qed
  have shorter: "(case getParentFolder path of None \<Rightarrow> 0 | Some s \<Rightarrow> Suc (length s)) < Suc (length path)"
    if "path \<noteq> []" for path
  proof (cases "getParentFolder path")
    case None
    then show ?thesis by simp
  next
    case (Some q)
    let ?p = "normalize_separators path"
    have len: "length ?p = length path" by (simp add: normalize_separators_def)
    from Some have q: "q = strip_last_segment (strip_trailing_slash ?p)"
      and "\<not> no_slash (remove_first_slash ?p)"
      by (auto simp: getParentFolder_def Let_def split: if_splits)
    then have sl: "slash \<in> set ?p"
      using set_remove1_subset [of slash ?p] by (auto simp: no_slash_def remove_first_slash_def)
    have "length q < length ?p"
    proof (cases "last ?p = slash")
      case True
      with that len have "length (strip_trailing_slash ?p) < length ?p"
        by (auto simp: strip_trailing_slash_def)
      with seg [of "strip_trailing_slash ?p"] show ?thesis unfolding q by simp
    next
      case False
      then have "strip_trailing_slash ?p = ?p"
        by (auto simp: strip_trailing_slash_def)
      with seg' [OF sl False] show ?thesis unfolding q by simp
    qed
    with Some len show ?thesis by simp
  qed
  then show ?thesis
    by (relation "measure (\<lambda>(fs, p). case p of None \<Rightarrow> 0 | Some s \<Rightarrow> Suc (length s))") auto
qed

text \<open>
  The second argument may be left out (\<^term>\<open>None\<close>). The comparison \<^verbatim>\<open>libPath < 8\<close> of a
  string with a number converts the string to a number first; that conversion is a
  parameter, \<open>less_than_8\<close>. The \<^verbatim>\<open>let libPath\<close> inside the block declares a new
  variable: after the block \<^verbatim>\<open>libPath\<close> is the argument again, and \<^verbatim>\<open>libPath.length\<close>
  throws a TypeError when the argument was left out.
\<close>

definition getLevel1Id :: "(string \<Rightarrow> bool) \<Rightarrow> fs \<Rightarrow> string \<Rightarrow> string option \<Rightarrow> string outcome" where
  "getLevel1Id less_than_8 fs path libPath =
     (if \<not> has_substring path ''library'' then Return []
      else if (case libPath of None \<Rightarrow> True | Some given \<Rightarrow> less_than_8 given) \<and>
              (case getLibraryFolder fs (Some path) of
                 None \<Rightarrow> True
               | Some inner \<Rightarrow> length inner < 8)
        then Return []
      else
        (case libPath of
           None \<Rightarrow> Raise TypeError
         | Some given \<Rightarrow>
             Return (takeWhile (\<lambda>c. c \<noteq> CHR ''-'' \<and> c \<noteq> CHR ''_'') (drop (length given) path))))"

subsection \<open>What a walk may add\<close>

text \<open>
  The three predicates say what one walk of \<open>dirPath\<close> at \<open>depth\<close> can have added to its
  accumulators: an entry is of this level or of a deeper one, and an entry of this level
  is a folder that the file system calls a directory, or a file below the first level; a
  file path starts with the path of the directory; a name of the tree is bound as it was,
  or to a subtree, or to \<^verbatim>\<open>false\<close> below the first level.
\<close>

definition entry_ok :: "fs \<Rightarrow> string \<Rightarrow> nat \<Rightarrow> entry \<Rightarrow> bool" where
  "entry_ok fs dirPath depth e =
     (depth \<le> entry_depth e \<and>
      (entry_depth e = depth \<longrightarrow>
         entry_path e = dirPath \<and>
         (case entry_type e of
            Folder \<Rightarrow> statSync fs (filePath dirPath depth (entry_name e)) = Inr True
          | File \<Rightarrow> 0 < depth \<and> statSync fs (filePath dirPath depth (entry_name e)) = Inr False)))"

definition path_ok :: "string \<Rightarrow> nat \<Rightarrow> string \<Rightarrow> bool" where
  "path_ok dirPath depth p =
     (if 0 < depth then (\<exists>rest. p = dirPath @ ''/'' @ rest)
      else (\<exists>nm rest. p = dirPath @ nm @ ''/'' @ rest))"

definition key_ok :: "fs \<Rightarrow> string \<Rightarrow> nat \<Rightarrow> tree \<Rightarrow> tree \<Rightarrow> string \<Rightarrow> bool" where
  "key_ok fs dirPath depth tree tree' k =
     (map_of tree' k = map_of tree k \<or>
      (k \<noteq> ''__proto__'' \<and> statSync fs (filePath dirPath depth k) = Inr True \<and>
       (\<exists>sub. map_of tree' k = Some (Subtree sub))) \<or>
      (k \<noteq> ''__proto__'' \<and> 0 < depth \<and> statSync fs (filePath dirPath depth k) = Inr False \<and>
       map_of tree' k = Some Leaf_false))"

definition extends :: "fs \<Rightarrow> string \<Rightarrow> nat \<Rightarrow> scan \<Rightarrow> scan \<Rightarrow> bool" where
  "extends fs dirPath depth a b =
     (case a of (tree, list, files) \<Rightarrow> case b of (tree', list', files') \<Rightarrow>
        (\<exists>la fa. list' = list @ la \<and> files' = files @ fa \<and>
           (\<forall>e\<in>set la. entry_ok fs dirPath depth e) \<and> (\<forall>p\<in>set fa. path_ok dirPath depth p)) \<and>
        (\<forall>k. key_ok fs dirPath depth tree tree' k))"

text \<open>The file system with the names that start with a dot taken out of every listing.\<close>

definition without_hidden :: "fs \<Rightarrow> fs" where
  "without_hidden fs =
     fs\<lparr>readdirSync := (\<lambda>p. case readdirSync fs p of
                               Inl err \<Rightarrow> Inl err
                             | Inr names \<Rightarrow> Inr (filter (\<lambda>name. \<not> test_hidden name) names))\<rparr>"

subsection \<open>A small file system\<close>

text \<open>
  A library \<^verbatim>\<open>lib/\<close> with a hidden folder, a file at the top and a folder \<^verbatim>\<open>001-a\<close> that
  holds a file and an empty folder.
\<close>

definition demo_fs :: fs where
  "demo_fs =
     \<lparr>readdirSync = (\<lambda>p.
        if p = ''lib/'' then Inr [''.git'', ''top.md'', ''001-a'']
        else if p = ''lib/001-a'' then Inr [''x.md'', ''sub'']
        else if p = ''lib/001-a/sub'' then Inr []
        else Inl (SystemError ''ENOENT'')),
      statSync = (\<lambda>p.
        if p \<in> set [''lib/'', ''lib/.git'', ''lib/001-a'', ''lib/001-a/sub''] then Inr True
        else if p \<in> set [''lib/top.md'', ''lib/001-a/x.md''] then Inr False
        else Inl (SystemError ''ENOENT'')),
      existsSync = (\<lambda>p.
        strip_trailing_slash p \<in> set [''lib'', ''lib/.git'', ''lib/001-a'', ''lib/001-a/sub''] \<or>
        p \<in> set [''lib/top.md'', ''lib/001-a/x.md''])\<rparr>"

text \<open>A folder that holds hidden entries only, and a folder that cannot be read.\<close>

definition hidden_fs :: fs where
  "hidden_fs =
     \<lparr>readdirSync = (\<lambda>p. if p = ''lib/'' then Inr [''.git'', ''.DS_Store'']
                          else Inl (SystemError ''ENOENT'')),
      statSync = (\<lambda>p. if p = ''lib/.git'' then Inr True
                       else if p = ''lib/.DS_Store'' then Inr False
                       else Inl (SystemError ''ENOENT'')),
      existsSync = (\<lambda>p. p \<in> set [''lib/'', ''lib/.git'', ''lib/.DS_Store''])\<rparr>"

definition denied_fs :: fs where
  "denied_fs =
     \<lparr>readdirSync = (\<lambda>p. Inl (SystemError ''EACCES'')),
      statSync = (\<lambda>p. if p = ''lib/'' then Inr True else Inl (SystemError ''ENOENT'')),
      existsSync = (\<lambda>p. p = ''lib/'')\<rparr>"

text \<open>
  A library with two home pages, a folder whose only entry has vanished, and writing
  calls that all fail.
\<close>

definition library_fs :: fs where
  "library_fs =
     \<lparr>readdirSync = (\<lambda>p.
        if p = ''library/'' then Inr [''notes.md'', ''home-start.md'', ''home_other.md'', ''001-a'']
        else if p = ''library/001-a'' then Inr [''x.md'']
        else Inl (SystemError ''ENOENT'')),
      statSync = (\<lambda>p.
        if p \<in> set [''library/'', ''library/001-a''] then Inr True
        else if p \<in> set [''library/notes.md'', ''library/home-start.md'', ''library/home_other.md'',
                           ''library/001-a/x.md''] then Inr False
        else Inl (SystemError ''ENOENT'')),
      existsSync = (\<lambda>p. p \<in> set [''library/'', ''library/001-a'', ''library/notes.md'',
        ''library/home-start.md'', ''library/home_other.md'', ''library/001-a/x.md''])\<rparr>"


definition vanished_fs :: fs where
  "vanished_fs =
     \<lparr>readdirSync = (\<lambda>p. if p = ''lib/'' then Inr [''gone''] else Inl (SystemError ''ENOENT'')),
      statSync = (\<lambda>p. if p = ''lib/'' then Inr True else Inl (SystemError ''ENOENT'')),
      existsSync = (\<lambda>p. p = ''lib/'')\<rparr>"

definition readonly_ops :: fs_ops where
  "readonly_ops =
     \<lparr>unlinkSync = (\<lambda>fs p. Inl (SystemError ''EROFS'')),
      rmdirSync = (\<lambda>fs p. Inl (SystemError ''EROFS'')),
      mkdirSync = (\<lambda>fs p mode. Inl (SystemError ''EROFS''))\<rparr>"

text \<open>
  Writing calls that can make the one folder \<^verbatim>\<open>lib/new/\<close> and nothing else; the folder
  made exists from then on.
\<close>

definition one_folder_ops :: fs_ops where
  "one_folder_ops =
     \<lparr>unlinkSync = (\<lambda>fs p. Inl (SystemError ''EACCES'')),
      rmdirSync = (\<lambda>fs p. Inl (SystemError ''EACCES'')),
      mkdirSync = (\<lambda>fs p mode.
        if p = ''lib/new/'' then Inr (fs\<lparr>existsSync := (\<lambda>q. q = p \<or> existsSync fs q)\<rparr>)
        else Inl (SystemError ''EACCES''))\<rparr>"

text \<open>A folder that holds a file named like the property that objects inherit.\<close>

definition proto_fs :: fs where
  "proto_fs =
     \<lparr>readdirSync = (\<lambda>p.
        if p = ''lib/'' then Inr [''a'']
        else if p = ''lib/a'' then Inr [''__proto__'']
        else Inl (SystemError ''ENOENT'')),
      statSync = (\<lambda>p.
        if p \<in> set [''lib/'', ''lib/a''] then Inr True
        else if p = ''lib/a/__proto__'' then Inr False
        else Inl (SystemError ''ENOENT'')),
      existsSync = (\<lambda>p. p \<in> set [''lib/'', ''lib/a'', ''lib/a/__proto__''])\<rparr>"

subsection \<open>Child paths\<close>

text \<open>
  The path of an entry in a directory, as the file system reads paths: the path of the
  directory without a trailing separator, one separator, the name. Both the slash and the
  backslash count as separators here, as they do in the test of \<open>readLibraryTree\<close>.
\<close>

definition ends_with_separator :: "string \<Rightarrow> bool" where
  "ends_with_separator dirPath = (dirPath \<noteq> [] \<and> (last dirPath = slash \<or> last dirPath = backslash))"

definition strip_trailing_separator :: "string \<Rightarrow> string" where
  "strip_trailing_separator dirPath =
     (if ends_with_separator dirPath then butlast dirPath else dirPath)"

definition is_child_path :: "string \<Rightarrow> string \<Rightarrow> string \<Rightarrow> bool" where
  "is_child_path dirPath name p =
     (p = strip_trailing_separator dirPath @ [slash] @ name \<or>
      p = strip_trailing_separator dirPath @ [backslash] @ name)"

text \<open>
  The path the walker builds for a recorded entry, from the three fields of its record, and
  what it means that a walk recorded its entries by that path: each entry is what the
  file system said of that path, and the file list is the paths of the file entries, in
  the order of the entry list.
\<close>

definition entry_child_path :: "entry \<Rightarrow> string" where
  "entry_child_path e = filePath (entry_path e) (entry_depth e) (entry_name e)"

definition recorded_by_child_path :: "fs \<Rightarrow> entry list \<Rightarrow> string list \<Rightarrow> bool" where
  "recorded_by_child_path fs added_list added_files =
     ((\<forall>e\<in>set added_list. statSync fs (entry_child_path e) = Inr (entry_type e = Folder)) \<and>
      added_files = map entry_child_path (filter (\<lambda>e. entry_type e = File) added_list))"

text \<open>
  A folder \<^verbatim>\<open>lib\<close> that can be read under its name with and without the trailing slash.
\<close>

definition bare_fs :: fs where
  "bare_fs =
     \<lparr>readdirSync = (\<lambda>p.
        if p = ''lib'' \<or> p = ''lib/'' then Inr [''001-a'']
        else if p = ''lib/001-a'' then Inr [''x.md'']
        else Inl (SystemError ''ENOENT'')),
      statSync = (\<lambda>p.
        if p \<in> set [''lib'', ''lib/'', ''lib/001-a''] then Inr True
        else if p = ''lib/001-a/x.md'' then Inr False
        else Inl (SystemError ''ENOENT'')),
      existsSync = (\<lambda>p. p \<in> set [''lib'', ''lib/'', ''lib/001-a'', ''lib/001-a/x.md''])\<rparr>"


section \<open>Properties\<close>

subsection \<open>The parent of a path\<close>

lemma count_remove1: "no_slash (remove_first_slash s) = (separator_count s \<le> 1)"
  unfolding no_slash_def remove_first_slash_def separator_count_def
  by (induction s) (auto simp: filter_empty_conv)

lemma strip_last_segment_eq:
  assumes "slash \<in> set t"
  shows "strip_last_segment t = drop_final_segment t"
proof -
  have r: "dropWhile (\<lambda>c. c \<noteq> slash) (rev t) \<noteq> []"
    using assms by (simp add: dropWhile_eq_Nil_conv) 
  show ?thesis
  proof (cases "takeWhile (\<lambda>c. c \<noteq> slash) (rev t) = []")
    case True
    then have "dropWhile (\<lambda>c. c \<noteq> slash) (rev t) = rev t"
      by (metis append_Nil takeWhile_dropWhile_id)
    then show ?thesis using True
      by (simp add: strip_last_segment_def drop_final_segment_def Let_def)
  next
    case False
    then show ?thesis using r
      by (simp add: strip_last_segment_def drop_final_segment_def Let_def)
  qed
qed

lemma count_pos_slash: "1 \<le> separator_count t \<Longrightarrow> slash \<in> set t"
  unfolding separator_count_def by (induction t) (auto split: if_splits)

lemma count_strip_le: "separator_count p \<le> Suc (separator_count (strip_trailing_slash p))"
  unfolding separator_count_def strip_trailing_slash_def
  by (cases p rule: rev_cases) auto

lemma count_strip: "2 \<le> separator_count p \<Longrightarrow> slash \<in> set (strip_trailing_slash p)"
  using count_strip_le [of p] by (intro count_pos_slash) arith

lemma drop_final_ends:
  assumes "slash \<in> set t"
  shows "drop_final_segment t \<noteq> [] \<and> last (drop_final_segment t) = slash"
proof -
  let ?d = "dropWhile (\<lambda>c. c \<noteq> slash) (rev t)"
  have ne: "?d \<noteq> []" using assms by (simp add: dropWhile_eq_Nil_conv)
  then have "hd ?d = slash" using hd_dropWhile [of "\<lambda>c. c \<noteq> slash" "rev t"] by simp
  with ne show ?thesis
    by (simp add: drop_final_segment_def last_rev)
qed

lemmas getParentFolder_eval =
  getParentFolder_def normalize_separators_def backslash_def slash_def is_letter_def
  remove_first_slash_def no_slash_def strip_trailing_slash_def strip_last_segment_def

text \<open>
  Claim C7, as the code has it. \<open>getParentFolder\<close> answers \<^verbatim>\<open>false\<close> exactly when the
  path, with backslashes turned into slashes, is a drive letter path of fewer than three
  characters or holds at most one separator; otherwise it answers the path without one
  trailing separator and without the characters after the last separator left, and that
  answer ends in a separator. The separators are counted before the trailing one is
  removed: the parent of \<^verbatim>\<open>/a/b/c/\<close> is \<^verbatim>\<open>/a/b/\<close>, the parent of \<^verbatim>\<open>/a/\<close> is \<^verbatim>\<open>/\<close>, and
  \<^verbatim>\<open>/a\<close> has none.
\<close>

theorem getParentFolder_contract:
  "getParentFolder path = getParentFolder_spec path \<and>
   (\<forall>parent. getParentFolder path = Some parent \<longrightarrow> parent \<noteq> [] \<and> last parent = slash) \<and>
   getParentFolder ''/a/b/c/'' = Some ''/a/b/'' \<and>
   getParentFolder ''/a/'' = Some ''/'' \<and>
   getParentFolder ''/a'' = None"
proof -
  let ?p = "normalize_separators path"
  have eq: "getParentFolder path = getParentFolder_spec path"
  proof (cases "separator_count ?p \<le> 1")
    case True
    then show ?thesis
      by (simp add: getParentFolder_def getParentFolder_spec_def Let_def count_remove1)
  next
    case False
    then have "slash \<in> set (strip_trailing_slash ?p)" by (intro count_strip) simp
    then show ?thesis using False
      by (simp add: getParentFolder_def getParentFolder_spec_def Let_def count_remove1
          strip_last_segment_eq)
  qed
  have "parent \<noteq> [] \<and> last parent = slash" if "getParentFolder_spec path = Some parent" for parent
  proof -
    from that have c: "\<not> separator_count ?p \<le> 1"
      and p: "parent = drop_final_segment (strip_trailing_slash ?p)"
      by (auto simp: getParentFolder_spec_def Let_def split: if_splits)
    from c have "slash \<in> set (strip_trailing_slash ?p)" by (intro count_strip) simp
    then show ?thesis unfolding p by (rule drop_final_ends)
  qed
  moreover have "getParentFolder ''/a/b/c/'' = Some ''/a/b/''"
    by (simp add: getParentFolder_eval)
  moreover have "getParentFolder ''/a/'' = Some ''/''"
    by (simp add: getParentFolder_eval)
  moreover have "getParentFolder ''/a'' = None"
    by (simp add: getParentFolder_eval)
  ultimately show ?thesis using eq by simp
qed

theorem getParentFolder_contract_witness:
  "getParentFolder ''/a/b/c/'' = Some ''/a/b/'' \<and> ''/a/b/'' \<noteq> [] \<and> last ''/a/b/'' = slash"
  using getParentFolder_contract [of "''/a/b/c/''"] by blast

theorem getParentFolder_trailing_counterexample:
  "getParentFolder ''/a/'' \<noteq> None"
  by (simp add: getParentFolder_eval)

subsection \<open>The walker: what is added and where\<close>

lemma entry_ok_sub: "entry_ok fs (filePath dirPath depth nm) (Suc depth) e \<Longrightarrow> entry_ok fs dirPath depth e"
  by (simp add: entry_ok_def)

lemma path_ok_sub: "path_ok (filePath dirPath depth nm) (Suc depth) p \<Longrightarrow> path_ok dirPath depth p"
  by (cases "0 < depth") (auto simp: path_ok_def filePath_def)

lemma path_ok_file: "0 < depth \<Longrightarrow> path_ok dirPath depth (filePath dirPath depth nm)"
  by (auto simp: path_ok_def filePath_def)

lemma extends_refl: "extends fs dirPath depth a a"
  by (cases a) (simp add: extends_def key_ok_def)

lemma extends_trans:
  assumes "extends fs dirPath depth a b" and "extends fs dirPath depth b c"
  shows "extends fs dirPath depth a c"
proof -
  obtain t l f where a: "a = (t, l, f)" by (cases a)
  obtain t1 l1 f1 where b: "b = (t1, l1, f1)" by (cases b)
  obtain t2 l2 f2 where c: "c = (t2, l2, f2)" by (cases c)
  from assms(1) a b obtain la fa where 1: "l1 = l @ la" "f1 = f @ fa"
    "\<forall>e\<in>set la. entry_ok fs dirPath depth e" "\<forall>p\<in>set fa. path_ok dirPath depth p"
    and k1: "\<forall>k. key_ok fs dirPath depth t t1 k"
    by (auto simp: extends_def)
  from assms(2) b c obtain lb fb where 2: "l2 = l1 @ lb" "f2 = f1 @ fb"
    "\<forall>e\<in>set lb. entry_ok fs dirPath depth e" "\<forall>p\<in>set fb. path_ok dirPath depth p"
    and k2: "\<forall>k. key_ok fs dirPath depth t1 t2 k"
    by (auto simp: extends_def)
  have "key_ok fs dirPath depth t t2 k" for k
    using k1 [rule_format, of k] k2 [rule_format, of k] unfolding key_ok_def by auto
  moreover have "l2 = l @ (la @ lb)" "f2 = f @ (fa @ fb)" using 1 2 by simp_all
  moreover have "\<forall>e\<in>set (la @ lb). entry_ok fs dirPath depth e" using 1 2 by auto
  moreover have "\<forall>p\<in>set (fa @ fb). path_ok dirPath depth p" using 1 2 by auto
  ultimately show ?thesis unfolding a c extends_def by blast
qed

lemma extends_file:
  assumes "0 < depth" and "statSync fs (filePath dirPath depth nm) = Inr False"
  shows "extends fs dirPath depth (tree, list, files)
     (assign nm Leaf_false tree,
      list @ [\<lparr>entry_depth = depth, entry_type = File, entry_name = nm, entry_path = dirPath\<rparr>],
      files @ [filePath dirPath depth nm])"
  using assms by (simp add: extends_def entry_ok_def path_ok_file key_ok_def assign_def update_conv')

lemma extends_folder:
  assumes "statSync fs (filePath dirPath depth nm) = Inr True"
    and "extends fs (filePath dirPath depth nm) (Suc depth) ([], [], []) (subTree, subList, subFiles)"
  shows "extends fs dirPath depth (tree, list, files)
     (assign nm (Subtree subTree) tree,
      list @ \<lparr>entry_depth = depth, entry_type = Folder, entry_name = nm, entry_path = dirPath\<rparr> # subList,
      files @ subFiles)"
proof -
  from assms(2) have "\<forall>e\<in>set subList. entry_ok fs dirPath depth e" "\<forall>p\<in>set subFiles. path_ok dirPath depth p"
    by (auto simp: extends_def intro: entry_ok_sub path_ok_sub)
  with assms(1) show ?thesis
    by (simp add: extends_def entry_ok_def key_ok_def assign_def update_conv')
qed

lemma for_extends:
  assumes walker: "\<And>dirPath depth r out. listSubFolder fs n dirPath depth [] [] [] = Some (r, out)
      \<Longrightarrow> \<exists>acc. r = Return acc \<and> extends fs dirPath depth ([], [], []) acc"
  shows "listSubFolder_for fs n dirPath depth names tree list files = Some (err, acc', out)
     \<Longrightarrow> extends fs dirPath depth (tree, list, files) acc'"
proof (induction names arbitrary: tree list files out)
  case Nil
  then show ?case by (simp add: extends_refl)
next
  case (Cons fileName rest)
  let ?fp = "filePath dirPath depth fileName"
  note run = Cons.prems
  show ?case
  proof (cases "test_hidden fileName")
    case True
    with run Cons.IH show ?thesis by simp
  next
    case nh: False
    show ?thesis
    proof (cases "statSync fs ?fp")
      case (Inl e)
      with run nh show ?thesis by (auto simp: extends_refl)
    next
      case (Inr isdir)
      show ?thesis
      proof (cases isdir)
        case False
        show ?thesis
        proof (cases "0 < depth")
          case True
          with run nh Inr False
          have "extends fs dirPath depth (assign fileName Leaf_false tree,
                  list @ [\<lparr>entry_depth = depth, entry_type = File,
                            entry_name = fileName, entry_path = dirPath\<rparr>],
                  files @ [?fp]) acc'"
            by (intro Cons.IH [of _ _ _ out]) simp
          moreover have "extends fs dirPath depth (tree, list, files) (assign fileName Leaf_false tree,
                  list @ [\<lparr>entry_depth = depth, entry_type = File,
                            entry_name = fileName, entry_path = dirPath\<rparr>],
                  files @ [?fp])"
            using True Inr False by (intro extends_file) simp_all
          ultimately show ?thesis by (rule extends_trans [rotated])
        next
          case d0: False
          with run nh Inr False Cons.IH show ?thesis by simp
        qed
      next
        case True
        show ?thesis
        proof (cases "listSubFolder fs n ?fp (depth + 1) [] [] []")
          case None
          with run nh Inr True show ?thesis by simp
        next
          case (Some res)
          obtain r out1 where res: "res = (r, out1)" by (cases res)
          from walker [of ?fp "depth + 1" r out1] Some res
          obtain subTree subList subFiles where r: "r = Return (subTree, subList, subFiles)"
            and sub: "extends fs ?fp (Suc depth) ([], [], []) (subTree, subList, subFiles)"
            by auto
          let ?next = "(assign fileName (Subtree subTree) tree,
              list @ \<lparr>entry_depth = depth, entry_type = Folder,
                       entry_name = fileName, entry_path = dirPath\<rparr> # subList,
              files @ subFiles)"
          from run nh Inr True Some res r obtain out2 where
            "listSubFolder_for fs n dirPath depth rest (assign fileName (Subtree subTree) tree)
               (list @ \<lparr>entry_depth = depth, entry_type = Folder,
                       entry_name = fileName, entry_path = dirPath\<rparr> # subList)
               (files @ subFiles) = Some (err, acc', out2)"
            by (auto split: option.splits)
          then have "extends fs dirPath depth ?next acc'" by (rule Cons.IH)
          moreover have "extends fs dirPath depth (tree, list, files) ?next"
            using Inr True sub by (intro extends_folder) simp_all
          ultimately show ?thesis by (rule extends_trans [rotated])
        qed
      qed
    qed
  qed
qed

lemma walk_extends:
  "listSubFolder fs fuel dirPath depth tree list files = Some (r, out)
     \<Longrightarrow> \<exists>acc. r = Return acc \<and> extends fs dirPath depth (tree, list, files) acc"
proof (induction fuel arbitrary: dirPath depth tree list files r out)
  case 0
  then show ?case by simp
next
  case (Suc n)
  show ?case
  proof (cases "readdirSync fs dirPath")
    case (Inl e)
    with Suc.prems show ?thesis by (auto simp: extends_refl)
  next
    case (Inr names)
    with Suc.prems obtain err acc' out' where
      run: "listSubFolder_for fs n dirPath depth names tree list files = Some (err, acc', out')"
      and r: "r = Return acc'"
      by (auto split: option.splits)
    have "extends fs dirPath depth (tree, list, files) acc'"
      using run by (rule for_extends [rotated]) (rule Suc.IH)
    with r show ?thesis by simp
  qed
qed

subsection \<open>One step of the loop\<close>

lemma for_hidden:
  "test_hidden x \<Longrightarrow>
   listSubFolder_for fs n dirPath depth (x # xs) tree list files =
   listSubFolder_for fs n dirPath depth xs tree list files"
  by simp

lemma for_stat_error:
  "\<not> test_hidden x \<Longrightarrow> statSync fs (filePath dirPath depth x) = Inl e \<Longrightarrow>
   listSubFolder_for fs n dirPath depth (x # xs) tree list files =
   Some (Some e, (tree, list, files), [])"
  by simp

lemma for_file_deep:
  "\<not> test_hidden x \<Longrightarrow> statSync fs (filePath dirPath depth x) = Inr False \<Longrightarrow> 0 < depth \<Longrightarrow>
   listSubFolder_for fs n dirPath depth (x # xs) tree list files =
   listSubFolder_for fs n dirPath depth xs (assign x Leaf_false tree)
     (list @ [\<lparr>entry_depth = depth, entry_type = File, entry_name = x, entry_path = dirPath\<rparr>])
     (files @ [filePath dirPath depth x])"
  by simp

lemma for_file_top:
  "\<not> test_hidden x \<Longrightarrow> statSync fs (filePath dirPath depth x) = Inr False \<Longrightarrow> \<not> 0 < depth \<Longrightarrow>
   listSubFolder_for fs n dirPath depth (x # xs) tree list files =
   listSubFolder_for fs n dirPath depth xs tree list files"
  by simp

lemma for_folder_none:
  "\<not> test_hidden x \<Longrightarrow> statSync fs (filePath dirPath depth x) = Inr True \<Longrightarrow>
   listSubFolder fs n (filePath dirPath depth x) (Suc depth) [] [] [] = None \<Longrightarrow>
   listSubFolder_for fs n dirPath depth (x # xs) tree list files = None"
  by simp

lemma for_folder_raise:
  "\<not> test_hidden x \<Longrightarrow> statSync fs (filePath dirPath depth x) = Inr True \<Longrightarrow>
   listSubFolder fs n (filePath dirPath depth x) (Suc depth) [] [] [] = Some (Raise e, out) \<Longrightarrow>
   listSubFolder_for fs n dirPath depth (x # xs) tree list files =
   Some (Some e, (tree, list, files), out)"
  by simp

lemma for_folder:
  "\<not> test_hidden x \<Longrightarrow> statSync fs (filePath dirPath depth x) = Inr True \<Longrightarrow>
   listSubFolder fs n (filePath dirPath depth x) (Suc depth) [] [] [] =
     Some (Return (subTree, subList, subFiles), out) \<Longrightarrow>
   listSubFolder_for fs n dirPath depth (x # xs) tree list files =
   (case listSubFolder_for fs n dirPath depth xs (assign x (Subtree subTree) tree)
           (list @ \<lparr>entry_depth = depth, entry_type = Folder,
                    entry_name = x, entry_path = dirPath\<rparr> # subList)
           (files @ subFiles) of
      None \<Rightarrow> None
    | Some (err, acc, out') \<Rightarrow> Some (err, acc, out @ out'))"
  by simp

lemma for_step_cases [case_names hidden stat_error file_deep file_top none raise folder]:
  obtains "test_hidden x"
  | e where "\<not> test_hidden x" "statSync fs (filePath dirPath depth x) = Inl e"
  | "\<not> test_hidden x" "statSync fs (filePath dirPath depth x) = Inr False" "0 < depth"
  | "\<not> test_hidden x" "statSync fs (filePath dirPath depth x) = Inr False" "\<not> 0 < depth"
  | "\<not> test_hidden x" "statSync fs (filePath dirPath depth x) = Inr True"
      "listSubFolder fs n (filePath dirPath depth x) (Suc depth) [] [] [] = None"
  | e out where "\<not> test_hidden x" "statSync fs (filePath dirPath depth x) = Inr True"
      "listSubFolder fs n (filePath dirPath depth x) (Suc depth) [] [] [] = Some (Raise e, out)"
  | subTree subList subFiles out where
      "\<not> test_hidden x" "statSync fs (filePath dirPath depth x) = Inr True"
      "listSubFolder fs n (filePath dirPath depth x) (Suc depth) [] [] [] =
         Some (Return (subTree, subList, subFiles), out)"
proof (cases "test_hidden x")
  case True
  then show ?thesis by (rule that(1))
next
  case shown: False
  show ?thesis
  proof (cases "statSync fs (filePath dirPath depth x)")
    case (Inl e)
    with shown show ?thesis by (rule that(2))
  next
    case (Inr isdir)
    show ?thesis
    proof (cases isdir)
      case False
      with Inr shown that(3,4) show ?thesis by (cases "0 < depth") auto
    next
      case True
      show ?thesis
      proof (cases "listSubFolder fs n (filePath dirPath depth x) (Suc depth) [] [] []")
        case None
        with shown Inr True that(5) show ?thesis by simp
      next
        case (Some res)
        obtain r out where res: "res = (r, out)" by (cases res)
        show ?thesis
        proof (cases r)
          case (Raise e)
          with shown Inr True Some res that(6) show ?thesis by simp
        next
          case (Return acc)
          with shown Inr True Some res that(7) show ?thesis by (cases acc) simp
        qed
      qed
    qed
  qed
qed

lemmas for_step =
  for_hidden for_stat_error for_file_deep for_file_top for_folder_none for_folder_raise for_folder

lemma for_append:
  "listSubFolder_for fs n dirPath depth (xs @ ys) tree list files =
     (case listSubFolder_for fs n dirPath depth xs tree list files of
        None \<Rightarrow> None
      | Some (Some err, acc, out) \<Rightarrow> Some (Some err, acc, out)
      | Some (None, (tree1, list1, files1), out) \<Rightarrow>
          (case listSubFolder_for fs n dirPath depth ys tree1 list1 files1 of
             None \<Rightarrow> None
           | Some (err, acc, out') \<Rightarrow> Some (err, acc, out @ out')))"
proof (induction xs arbitrary: tree list files)
  case Nil
  show ?case by (simp split: option.splits)
next
  case (Cons x xs)
  show ?case
  proof (cases rule: for_step_cases [where x = x and fs = fs and dirPath = dirPath and depth = depth and n = n])
    case folder
    then show ?thesis
      by (simp add: for_folder Cons.IH split: option.splits prod.splits
          del: listSubFolder_for.simps)
  next
    case file_top
    show ?thesis
      unfolding append_Cons for_file_top [OF file_top] by (rule Cons.IH)
  qed (simp_all add: for_step Cons.IH del: listSubFolder_for.simps)
qed

lemma for_returns:
  assumes "\<And>name. name \<in> set names \<Longrightarrow> statSync fs (filePath dirPath depth name) = Inr True
      \<Longrightarrow> listSubFolder fs n (filePath dirPath depth name) (Suc depth) [] [] [] \<noteq> None"
  shows "listSubFolder_for fs n dirPath depth names tree list files \<noteq> None"
  using assms
proof (induction names arbitrary: tree list files)
  case Nil
  show ?case by simp
next
  case (Cons x xs)
  have rest: "listSubFolder_for fs n dirPath depth xs t l f \<noteq> None" for t l f
    by (rule Cons.IH, rule Cons.prems) simp_all
  show ?case
  proof (cases rule: for_step_cases [where x = x and fs = fs and dirPath = dirPath and depth = depth and n = n])
    case none
    with Cons.prems [of x] show ?thesis by simp
  next
    case (folder subTree subList subFiles out)
    from rest obtain res where
      "listSubFolder_for fs n dirPath depth xs (assign x (Subtree subTree) tree)
         (list @ \<lparr>entry_depth = depth, entry_type = Folder,
                  entry_name = x, entry_path = dirPath\<rparr> # subList)
         (files @ subFiles) = Some res"
      by blast
    with folder show ?thesis
      by (cases res) (auto simp add: for_folder simp del: listSubFolder_for.simps)
  next
    case file_top
    show ?thesis unfolding for_file_top [OF file_top] by (rule rest)
  qed (simp_all add: for_step rest del: listSubFolder_for.simps)
qed

lemma walk_returns_deep:
  assumes bound: "\<forall>p. L < length p \<longrightarrow> isl (statSync fs p)"
  shows "0 < depth \<Longrightarrow> L - length dirPath < fuel
     \<Longrightarrow> listSubFolder fs fuel dirPath depth tree list files \<noteq> None"
proof (induction fuel arbitrary: dirPath depth tree list files)
  case 0
  then show ?case by simp
next
  case (Suc n)
  show ?case
  proof (cases "readdirSync fs dirPath")
    case (Inl e)
    then show ?thesis by simp
  next
    case (Inr names)
    have "listSubFolder_for fs n dirPath depth names tree list files \<noteq> None"
    proof (rule for_returns)
      fix name
      assume st: "statSync fs (filePath dirPath depth name) = Inr True"
      with bound have "length (filePath dirPath depth name) \<le> L"
        by (metis not_le_imp_less sum.disc(2))
      moreover have "length dirPath < length (filePath dirPath depth name)"
        using Suc.prems(1) by (simp add: filePath_def)
      ultimately have "L - length (filePath dirPath depth name) < n"
        using Suc.prems(2) by arith
      then show "listSubFolder fs n (filePath dirPath depth name) (Suc depth) [] [] [] \<noteq> None"
        by (intro Suc.IH) simp_all
    qed
    with Inr show ?thesis by (auto split: option.splits)
  qed
qed

lemma walk_returns:
  assumes bound: "\<forall>p. L < length p \<longrightarrow> isl (statSync fs p)" and fuel: "L + 2 \<le> fuel"
  shows "listSubFolder fs fuel dirPath depth tree list files \<noteq> None"
proof -
  from fuel obtain n where n: "fuel = Suc n" "L < n" by (cases fuel) auto
  show ?thesis
  proof (cases "readdirSync fs dirPath")
    case (Inl e)
    with n show ?thesis by simp
  next
    case (Inr names)
    have "listSubFolder_for fs n dirPath depth names tree list files \<noteq> None"
    proof (rule for_returns)
      fix name
      show "listSubFolder fs n (filePath dirPath depth name) (Suc depth) [] [] [] \<noteq> None"
        using n by (intro walk_returns_deep [OF bound]) simp_all
    qed
    with Inr n show ?thesis by (auto split: option.splits)
  qed
qed

lemma for_filter_hidden:
  "listSubFolder_for fs n dirPath depth (filter (\<lambda>name. \<not> test_hidden name) names) tree list files
     = listSubFolder_for fs n dirPath depth names tree list files"
proof (induction names arbitrary: tree list files)
  case Nil
  show ?case by simp
next
  case (Cons x xs)
  show ?case
  proof (cases rule: for_step_cases [where x = x and fs = fs and dirPath = dirPath and depth = depth and n = n])
    case hidden
    then show ?thesis by (simp add: for_hidden Cons.IH del: listSubFolder_for.simps)
  next
    case file_top
    then have "filter (\<lambda>name. \<not> test_hidden name) (x # xs)
        = x # filter (\<lambda>name. \<not> test_hidden name) xs" by simp
    then show ?thesis
      by (simp only: for_file_top [OF file_top] Cons.IH)
  qed (simp_all add: for_step Cons.IH del: listSubFolder_for.simps)
qed

lemma for_without_hidden:
  assumes "\<And>dirPath depth. listSubFolder (without_hidden fs) n dirPath depth [] [] []
      = listSubFolder fs n dirPath depth [] [] []"
  shows "listSubFolder_for (without_hidden fs) n dirPath depth names tree list files
     = listSubFolder_for fs n dirPath depth names tree list files"
proof (induction names arbitrary: tree list files)
  case Nil
  show ?case by simp
next
  case (Cons x xs)
  have st: "statSync (without_hidden fs) = statSync fs" by (simp add: without_hidden_def)
  show ?case
  proof (cases rule: for_step_cases [where x = x and fs = fs and dirPath = dirPath and depth = depth and n = n])
    case hidden
    then show ?thesis by (simp add: for_hidden Cons.IH del: listSubFolder_for.simps)
  next
    case (stat_error e)
    then show ?thesis by (simp add: for_stat_error st del: listSubFolder_for.simps)
  next
    case file_deep
    then show ?thesis by (simp add: for_file_deep st Cons.IH del: listSubFolder_for.simps)
  next
    case file_top
    have "listSubFolder_for (without_hidden fs) n dirPath depth (x # xs) tree list files =
       listSubFolder_for (without_hidden fs) n dirPath depth xs tree list files"
      using file_top by (intro for_file_top) (simp_all add: st)
    then show ?thesis unfolding for_file_top [OF file_top] by (simp only: Cons.IH)
  next
    case none
    then show ?thesis by (simp add: for_folder_none st assms del: listSubFolder_for.simps)
  next
    case (raise e out)
    then show ?thesis by (simp add: for_folder_raise st assms del: listSubFolder_for.simps)
  next
    case (folder subTree subList subFiles out)
    then show ?thesis by (simp add: for_folder st assms Cons.IH del: listSubFolder_for.simps)
  qed
qed

lemma walk_without_hidden:
  "listSubFolder (without_hidden fs) fuel dirPath depth tree list files
     = listSubFolder fs fuel dirPath depth tree list files"
proof (induction fuel arbitrary: dirPath depth tree list files)
  case 0
  show ?case by simp
next
  case (Suc n)
  have rd: "readdirSync (without_hidden fs) dirPath =
      (case readdirSync fs dirPath of Inl err \<Rightarrow> Inl err
       | Inr names \<Rightarrow> Inr (filter (\<lambda>name. \<not> test_hidden name) names))"
    by (simp add: without_hidden_def)
  show ?case
    by (simp add: rd for_without_hidden [OF Suc.IH] for_filter_hidden split: sum.splits)
qed

lemma for_all_hidden:
  "\<forall>name\<in>set names. test_hidden name \<Longrightarrow>
   listSubFolder_for fs n dirPath depth names tree list files = Some (None, (tree, list, files), [])"
  by (induction names) simp_all

lemma demo_walk:
  "listSubFolder demo_fs (Suc (Suc (Suc 0))) ''lib/'' 0 [] [] [] =
   Some (Return
    ([(''001-a'', Subtree [(''x.md'', Leaf_false), (''sub'', Subtree [])])],
     [\<lparr>entry_depth = 0, entry_type = Folder, entry_name = ''001-a'', entry_path = ''lib/''\<rparr>,
      \<lparr>entry_depth = 1, entry_type = File, entry_name = ''x.md'', entry_path = ''lib/001-a''\<rparr>,
      \<lparr>entry_depth = 1, entry_type = Folder, entry_name = ''sub'', entry_path = ''lib/001-a''\<rparr>],
     [''lib/001-a/x.md'']), [])"
  by (simp add: demo_fs_def filePath_def assign_def)

subsection \<open>The claims about the walker\<close>

text \<open>
  Claim C1. A scan at depth 0 leaves a file directly under the scanned root out of all
  three results: for a name without a separator that the file system calls a file, the
  tree is not changed at that name, no added entry of depth 0 bears that name (the added
  entries of depth 0 are folders), and the path of the file is not among the added file
  paths. A file met at a depth above 0, that is, a name of the listing that is not hidden
  and is a file, the loop having passed the names before it without an exception, is in
  the entry list with its record and in the file list with its full path, and the tree
  binds its name to \<^verbatim>\<open>false\<close> unless the name is \<^verbatim>\<open>__proto__\<close>: no walk changes what the
  tree holds at that name, so a file of that name, as in the last part, is in the entry
  list and in the file list and not in the tree.
\<close>

theorem top_level_files_skipped_deeper_files_recorded:
  "(listSubFolder fs fuel dirPath 0 tree list files = Some (Return (tree', list', files'), out) \<and>
    statSync fs (dirPath @ name) = Inr False \<and> slash \<notin> set name \<longrightarrow>
      map_of tree' name = map_of tree name \<and>
      (\<exists>added. list' = list @ added \<and>
         (\<forall>e\<in>set added. entry_depth e = 0 \<longrightarrow> entry_type e = Folder \<and> entry_name e \<noteq> name)) \<and>
      (\<exists>added. files' = files @ added \<and> dirPath @ name \<notin> set added)) \<and>
   (0 < depth \<and> readdirSync fs dirPath = Inr (pre @ name # post) \<and>
    listSubFolder_for fs n dirPath depth pre tree list files = Some (None, acc, out_pre) \<and>
    \<not> test_hidden name \<and> statSync fs (dirPath @ ''/'' @ name) = Inr False \<and>
    listSubFolder fs (Suc n) dirPath depth tree list files = Some (Return (tree', list', files'), out) \<longrightarrow>
      (name \<noteq> ''__proto__'' \<longrightarrow> map_of tree' name = Some Leaf_false) \<and>
      \<lparr>entry_depth = depth, entry_type = File, entry_name = name, entry_path = dirPath\<rparr> \<in> set list' \<and>
      dirPath @ ''/'' @ name \<in> set files') \<and>
   (listSubFolder fs fuel dirPath depth tree list files = Some (Return (tree', list', files'), out) \<longrightarrow>
      map_of tree' ''__proto__'' = map_of tree ''__proto__'') \<and>
   listSubFolder proto_fs (Suc (Suc 0)) ''lib/'' 0 [] [] [] =
     Some (Return
      ([(''a'', Subtree [])],
       [\<lparr>entry_depth = 0, entry_type = Folder, entry_name = ''a'', entry_path = ''lib/''\<rparr>,
        \<lparr>entry_depth = 1, entry_type = File, entry_name = ''__proto__'', entry_path = ''lib/a''\<rparr>],
       [''lib/a/__proto__'']), [])"
proof (intro conjI impI; (elim conjE)?)
  assume run: "listSubFolder fs fuel dirPath 0 tree list files = Some (Return (tree', list', files'), out)"
    and isfile: "statSync fs (dirPath @ name) = Inr False" and name: "slash \<notin> set name"
  from walk_extends [OF run] have ext: "extends fs dirPath 0 (tree, list, files) (tree', list', files')"
    by simp
  then obtain la fa where la: "list' = list @ la" "\<forall>e\<in>set la. entry_ok fs dirPath 0 e"
    and fa: "files' = files @ fa" "\<forall>p\<in>set fa. path_ok dirPath 0 p"
    and keys: "\<forall>k. key_ok fs dirPath 0 tree tree' k"
    by (auto simp: extends_def)
  from keys [rule_format, of name] isfile
  show "map_of tree' name = map_of tree name"
    by (simp add: key_ok_def filePath_def)
  have "entry_type e = Folder \<and> entry_name e \<noteq> name" if "e \<in> set la" "entry_depth e = 0" for e
    using la(2) [rule_format, OF that(1)] that(2) isfile
    by (cases "entry_type e") (auto simp: entry_ok_def filePath_def)
  with la(1) show "\<exists>added. list' = list @ added \<and>
         (\<forall>e\<in>set added. entry_depth e = 0 \<longrightarrow> entry_type e = Folder \<and> entry_name e \<noteq> name)"
    by blast
  have "dirPath @ name \<notin> set fa"
  proof
    assume "dirPath @ name \<in> set fa"
    with fa(2) obtain nm rest where "dirPath @ name = dirPath @ nm @ ''/'' @ rest"
      by (auto simp: path_ok_def)
    then have "name = nm @ ''/'' @ rest" by simp
    with name show False by (simp add: slash_def)
  qed
  with fa(1) show "\<exists>added. files' = files @ added \<and> dirPath @ name \<notin> set added" by blast
next
  assume deep: "0 < depth" and rd: "readdirSync fs dirPath = Inr (pre @ name # post)"
    and pre: "listSubFolder_for fs n dirPath depth pre tree list files = Some (None, acc, out_pre)"
    and shown: "\<not> test_hidden name" and isfile: "statSync fs (dirPath @ ''/'' @ name) = Inr False"
    and run: "listSubFolder fs (Suc n) dirPath depth tree list files = Some (Return (tree', list', files'), out)"
  obtain tree1 list1 files1 where acc: "acc = (tree1, list1, files1)" by (cases acc)
  let ?e = "\<lparr>entry_depth = depth, entry_type = File, entry_name = name, entry_path = dirPath\<rparr>"
  let ?p = "dirPath @ ''/'' @ name"
  have fp: "filePath dirPath depth name = ?p" using deep by (simp add: filePath_def)
  from isfile fp have isfile2: "statSync fs (filePath dirPath depth name) = Inr False" by simp
  from run rd obtain err out2 where
    all: "listSubFolder_for fs n dirPath depth (pre @ name # post) tree list files
       = Some (err, (tree', list', files'), out2)"
    by (auto split: option.splits)
  then obtain out3 where post: "listSubFolder_for fs n dirPath depth post
       (assign name Leaf_false tree1) (list1 @ [?e]) (files1 @ [?p])
       = Some (err, (tree', list', files'), out3)"
    unfolding for_append pre acc for_file_deep [OF shown isfile2 deep] fp
    by (auto split: option.splits)
  have ext: "extends fs dirPath depth (assign name Leaf_false tree1, list1 @ [?e], files1 @ [?p])
     (tree', list', files')"
    using post by (rule for_extends [rotated]) (rule walk_extends)
  then obtain la fa where "list' = (list1 @ [?e]) @ la" "files' = (files1 @ [?p]) @ fa"
    and keys: "\<forall>k. key_ok fs dirPath depth (assign name Leaf_false tree1) tree' k"
    by (auto simp: extends_def)
  then show "?e \<in> set list'" "?p \<in> set files'" by simp_all
  from keys [rule_format, of name] isfile2
  show "map_of tree' name = Some Leaf_false" if "name \<noteq> ''__proto__''"
    using that by (auto simp: key_ok_def assign_def update_conv')
next
  assume run: "listSubFolder fs fuel dirPath depth tree list files = Some (Return (tree', list', files'), out)"
  from walk_extends [OF run] have "key_ok fs dirPath depth tree tree' ''__proto__''"
    by (simp add: extends_def)
  then show "map_of tree' ''__proto__'' = map_of tree ''__proto__''"
    by (simp add: key_ok_def)
next
  show "listSubFolder proto_fs (Suc (Suc 0)) ''lib/'' 0 [] [] [] =
     Some (Return
      ([(''a'', Subtree [])],
       [\<lparr>entry_depth = 0, entry_type = Folder, entry_name = ''a'', entry_path = ''lib/''\<rparr>,
        \<lparr>entry_depth = 1, entry_type = File, entry_name = ''__proto__'', entry_path = ''lib/a''\<rparr>],
       [''lib/a/__proto__'']), [])"
    by (simp add: proto_fs_def filePath_def assign_def)
qed

lemma demo_walk_deep:
  "listSubFolder demo_fs (Suc (Suc 0)) ''lib/001-a'' 1 [] [] [] =
   Some (Return
    ([(''x.md'', Leaf_false), (''sub'', Subtree [])],
     [\<lparr>entry_depth = 1, entry_type = File, entry_name = ''x.md'', entry_path = ''lib/001-a''\<rparr>,
      \<lparr>entry_depth = 1, entry_type = Folder, entry_name = ''sub'', entry_path = ''lib/001-a''\<rparr>],
     [''lib/001-a/x.md'']), [])"
  by (simp add: demo_fs_def filePath_def assign_def)

lemma demo_stat:
  "statSync demo_fs ''lib/top.md'' = Inr False"
  "statSync demo_fs ''lib/001-a/x.md'' = Inr False"
  "statSync demo_fs ''lib/001-a'' = Inr True"
  "readdirSync demo_fs ''lib/001-a'' = Inr [''x.md'', ''sub'']"
  "readdirSync demo_fs ''lib/'' = Inr [''.git'', ''top.md'', ''001-a'']"
  by (simp_all add: demo_fs_def)

theorem top_level_files_skipped_deeper_files_recorded_witness:
  "listSubFolder demo_fs (Suc (Suc (Suc 0))) ''lib/'' 0 [] [] [] =
     Some (Return
      ([(''001-a'', Subtree [(''x.md'', Leaf_false), (''sub'', Subtree [])])],
       [\<lparr>entry_depth = 0, entry_type = Folder, entry_name = ''001-a'', entry_path = ''lib/''\<rparr>,
        \<lparr>entry_depth = 1, entry_type = File, entry_name = ''x.md'', entry_path = ''lib/001-a''\<rparr>,
        \<lparr>entry_depth = 1, entry_type = Folder, entry_name = ''sub'', entry_path = ''lib/001-a''\<rparr>],
       [''lib/001-a/x.md'']), []) \<and>
   statSync demo_fs (''lib/'' @ ''top.md'') = Inr False \<and> slash \<notin> set ''top.md'' \<and>
   map_of [(''001-a'', Subtree [(''x.md'', Leaf_false), (''sub'', Subtree [])])] ''top.md'' = map_of [] ''top.md'' \<and>
   (0::nat) < 1 \<and> readdirSync demo_fs ''lib/001-a'' = Inr ([] @ ''x.md'' # [''sub'']) \<and>
   listSubFolder_for demo_fs (Suc 0) ''lib/001-a'' 1 [] [] [] [] = Some (None, ([], [], []), []) \<and>
   \<not> test_hidden ''x.md'' \<and> statSync demo_fs (''lib/001-a'' @ ''/'' @ ''x.md'') = Inr False \<and>
   listSubFolder demo_fs (Suc (Suc 0)) ''lib/001-a'' 1 [] [] [] =
     Some (Return
      ([(''x.md'', Leaf_false), (''sub'', Subtree [])],
       [\<lparr>entry_depth = 1, entry_type = File, entry_name = ''x.md'', entry_path = ''lib/001-a''\<rparr>,
        \<lparr>entry_depth = 1, entry_type = Folder, entry_name = ''sub'', entry_path = ''lib/001-a''\<rparr>],
       [''lib/001-a/x.md'']), []) \<and>
   map_of [(''x.md'', Leaf_false), (''sub'', Subtree [])] ''x.md'' = Some Leaf_false \<and>
   ''lib/001-a'' @ ''/'' @ ''x.md'' \<in> set [''lib/001-a/x.md'']"
  using top_level_files_skipped_deeper_files_recorded
    [where fs = demo_fs and fuel = "Suc (Suc (Suc 0))" and dirPath = "''lib/''" and tree = "[]"
      and list = "[]" and files = "[]" and name = "''top.md''"
      and tree' = "[(''001-a'', Subtree [(''x.md'', Leaf_false), (''sub'', Subtree [])])]"]
    top_level_files_skipped_deeper_files_recorded
    [where fs = demo_fs and n = "Suc 0" and dirPath = "''lib/001-a''" and depth = 1 and tree = "[]"
      and list = "[]" and files = "[]" and name = "''x.md''" and pre = "[]" and post = "[''sub'']"
      and acc = "([], [], [])" and out_pre = "[]"
      and tree' = "[(''x.md'', Leaf_false), (''sub'', Subtree [])]"]
    demo_walk demo_walk_deep demo_stat
  by (simp add: slash_def)

text \<open>
  Claim C2. Names that begin with a dot add nothing: the walker returns the same on the
  file system with those names taken out of every listing, whatever they are and
  however much fuel there is, so none of them is entered; the loop returns the same with
  and without a hidden name in its list; and the scan of a directory that holds hidden
  entries only returns the empty tree, the empty entry list and the empty file list, and
  logs nothing.
\<close>

theorem hidden_entries_contribute_nothing:
  "listSubFolder (without_hidden fs) fuel dirPath depth tree list files =
     listSubFolder fs fuel dirPath depth tree list files \<and>
   (test_hidden name \<longrightarrow>
      listSubFolder_for fs n dirPath depth (pre @ name # post) tree list files =
      listSubFolder_for fs n dirPath depth (pre @ post) tree list files) \<and>
   (readdirSync fs dirPath = Inr names \<and> (\<forall>x\<in>set names. test_hidden x) \<longrightarrow>
      listSubFolder fs (Suc n) dirPath depth [] [] [] = Some (Return ([], [], []), []))"
proof (intro conjI impI)
  show "listSubFolder (without_hidden fs) fuel dirPath depth tree list files =
     listSubFolder fs fuel dirPath depth tree list files"
    by (rule walk_without_hidden)
next
  assume "test_hidden name"
  then have "filter (\<lambda>x. \<not> test_hidden x) (pre @ name # post) =
      filter (\<lambda>x. \<not> test_hidden x) (pre @ post)" by simp
  then show "listSubFolder_for fs n dirPath depth (pre @ name # post) tree list files =
      listSubFolder_for fs n dirPath depth (pre @ post) tree list files"
    using for_filter_hidden [of fs n dirPath depth "pre @ name # post" tree list files]
      for_filter_hidden [of fs n dirPath depth "pre @ post" tree list files]
    by simp
next
  assume "readdirSync fs dirPath = Inr names \<and> (\<forall>x\<in>set names. test_hidden x)"
  then show "listSubFolder fs (Suc n) dirPath depth [] [] [] = Some (Return ([], [], []), [])"
    by (simp add: for_all_hidden)
qed

theorem hidden_entries_contribute_nothing_witness:
  "test_hidden ''.git'' \<and>
   listSubFolder_for demo_fs (Suc (Suc 0)) ''lib/'' 0 ([] @ ''.git'' # [''top.md'', ''001-a'']) [] [] [] =
   listSubFolder_for demo_fs (Suc (Suc 0)) ''lib/'' 0 ([] @ [''top.md'', ''001-a'']) [] [] [] \<and>
   readdirSync hidden_fs ''lib/'' = Inr [''.git'', ''.DS_Store''] \<and>
   test_hidden ''.git'' \<and> test_hidden ''.DS_Store'' \<and>
   listSubFolder hidden_fs (Suc 0) ''lib/'' 0 [] [] [] = Some (Return ([], [], []), [])"
  using hidden_entries_contribute_nothing
    [where fs = demo_fs and n = "Suc (Suc 0)" and dirPath = "''lib/''" and depth = 0 and tree = "[]"
      and list = "[]" and files = "[]" and name = "''.git''" and pre = "[]"
      and post = "[''top.md'', ''001-a'']"]
    hidden_entries_contribute_nothing
    [where fs = hidden_fs and n = 0 and dirPath = "''lib/''" and depth = 0
      and names = "[''.git'', ''.DS_Store'']"]
  by (simp add: hidden_fs_def)

text \<open>
  Claim C3. The entry list is in the order of the walk. When the loop has passed the names
  \<open>pre\<close> of the listing and meets a folder, the entry list of the whole walk is: the seed
  and what the names before added, then the record of the folder, then the whole list
  that the walk of the folder returned, in its own order, then what the names after the
  folder add.
\<close>

theorem entry_list_in_walk_order:
  "readdirSync fs dirPath = Inr (pre @ name # post) \<and>
   listSubFolder_for fs n dirPath depth pre tree list files = Some (None, (tree_pre, list_pre, files_pre), out_pre) \<and>
   \<not> test_hidden name \<and> statSync fs (filePath dirPath depth name) = Inr True \<and>
   listSubFolder fs n (filePath dirPath depth name) (depth + 1) [] [] [] =
     Some (Return (subTree, subList, subFiles), out_sub) \<and>
   listSubFolder fs (Suc n) dirPath depth tree list files = Some (Return (tree', list', files'), out)
   \<longrightarrow>
   (\<exists>earlier later.
      list_pre = list @ earlier \<and>
      list' = list @ earlier
                @ \<lparr>entry_depth = depth, entry_type = Folder, entry_name = name, entry_path = dirPath\<rparr>
                # subList @ later) \<and>
   (\<exists>err out_post.
      listSubFolder_for fs n dirPath depth post
        (assign name (Subtree subTree) tree_pre)
        (list_pre @ \<lparr>entry_depth = depth, entry_type = Folder, entry_name = name, entry_path = dirPath\<rparr>
           # subList)
        (files_pre @ subFiles) =
      Some (err, (tree', list', files'), out_post))"
proof (intro impI, elim conjE)
  let ?e = "\<lparr>entry_depth = depth, entry_type = Folder, entry_name = name, entry_path = dirPath\<rparr>"
  assume rd: "readdirSync fs dirPath = Inr (pre @ name # post)"
    and pre: "listSubFolder_for fs n dirPath depth pre tree list files =
        Some (None, (tree_pre, list_pre, files_pre), out_pre)"
    and shown: "\<not> test_hidden name"
    and isdir: "statSync fs (filePath dirPath depth name) = Inr True"
    and sub: "listSubFolder fs n (filePath dirPath depth name) (depth + 1) [] [] [] =
        Some (Return (subTree, subList, subFiles), out_sub)"
    and run: "listSubFolder fs (Suc n) dirPath depth tree list files =
        Some (Return (tree', list', files'), out)"
  from sub have sub': "listSubFolder fs n (filePath dirPath depth name) (Suc depth) [] [] [] =
        Some (Return (subTree, subList, subFiles), out_sub)" by simp
  from run rd obtain err out_all where
    all: "listSubFolder_for fs n dirPath depth (pre @ name # post) tree list files
       = Some (err, (tree', list', files'), out_all)"
    by (auto split: option.splits)
  then obtain out_post where post: "listSubFolder_for fs n dirPath depth post
       (assign name (Subtree subTree) tree_pre) (list_pre @ ?e # subList) (files_pre @ subFiles)
       = Some (err, (tree', list', files'), out_post)"
    unfolding for_append pre for_folder [OF shown isdir sub']
    by (auto split: option.splits)
  have "extends fs dirPath depth (tree, list, files) (tree_pre, list_pre, files_pre)"
    using pre by (rule for_extends [rotated]) (rule walk_extends)
  then obtain earlier where earlier: "list_pre = list @ earlier" by (auto simp: extends_def)
  have "extends fs dirPath depth
     (assign name (Subtree subTree) tree_pre, list_pre @ ?e # subList, files_pre @ subFiles)
     (tree', list', files')"
    using post by (rule for_extends [rotated]) (rule walk_extends)
  then obtain later where later: "list' = (list_pre @ ?e # subList) @ later"
    by (auto simp: extends_def)
  from earlier later have "list' = list @ earlier @ ?e # subList @ later" by simp
  with earlier post show "(\<exists>earlier later.
      list_pre = list @ earlier \<and> list' = list @ earlier @ ?e # subList @ later) \<and>
   (\<exists>err out_post.
      listSubFolder_for fs n dirPath depth post
        (assign name (Subtree subTree) tree_pre) (list_pre @ ?e # subList) (files_pre @ subFiles) =
      Some (err, (tree', list', files'), out_post))"
    by blast
qed


theorem entry_list_in_walk_order_witness:
  "readdirSync demo_fs ''lib/'' = Inr ([''.git'', ''top.md''] @ ''001-a'' # []) \<and>
   listSubFolder_for demo_fs (Suc (Suc 0)) ''lib/'' 0 [''.git'', ''top.md''] [] [] [] =
     Some (None, ([], [], []), []) \<and>
   \<not> test_hidden ''001-a'' \<and> statSync demo_fs (filePath ''lib/'' 0 ''001-a'') = Inr True \<and>
   listSubFolder demo_fs (Suc (Suc 0)) (filePath ''lib/'' 0 ''001-a'') (0 + 1) [] [] [] =
     Some (Return
      ([(''x.md'', Leaf_false), (''sub'', Subtree [])],
       [\<lparr>entry_depth = 1, entry_type = File, entry_name = ''x.md'', entry_path = ''lib/001-a''\<rparr>,
        \<lparr>entry_depth = 1, entry_type = Folder, entry_name = ''sub'', entry_path = ''lib/001-a''\<rparr>],
       [''lib/001-a/x.md'']), []) \<and>
   listSubFolder demo_fs (Suc (Suc (Suc 0))) ''lib/'' 0 [] [] [] =
     Some (Return
      ([(''001-a'', Subtree [(''x.md'', Leaf_false), (''sub'', Subtree [])])],
       [] @ []
         @ \<lparr>entry_depth = 0, entry_type = Folder, entry_name = ''001-a'', entry_path = ''lib/''\<rparr>
         # [\<lparr>entry_depth = 1, entry_type = File, entry_name = ''x.md'', entry_path = ''lib/001-a''\<rparr>,
            \<lparr>entry_depth = 1, entry_type = Folder, entry_name = ''sub'', entry_path = ''lib/001-a''\<rparr>]
         @ [],
       [''lib/001-a/x.md'']), [])"
  using entry_list_in_walk_order
    [where fs = demo_fs and n = "Suc (Suc 0)" and dirPath = "''lib/''" and depth = 0 and tree = "[]"
      and list = "[]" and files = "[]" and name = "''001-a''" and pre = "[''.git'', ''top.md'']"
      and post = "[]" and tree_pre = "[]" and list_pre = "[]" and files_pre = "[]" and out_pre = "[]"
      and subTree = "[(''x.md'', Leaf_false), (''sub'', Subtree [])]"
      and subList = "[\<lparr>entry_depth = 1, entry_type = File, entry_name = ''x.md'', entry_path = ''lib/001-a''\<rparr>,
        \<lparr>entry_depth = 1, entry_type = Folder, entry_name = ''sub'', entry_path = ''lib/001-a''\<rparr>]"
      and subFiles = "[''lib/001-a/x.md'']" and out_sub = "[]"
      and tree' = "[(''001-a'', Subtree [(''x.md'', Leaf_false), (''sub'', Subtree [])])]"
      and list' = "[\<lparr>entry_depth = 0, entry_type = Folder, entry_name = ''001-a'', entry_path = ''lib/''\<rparr>,
        \<lparr>entry_depth = 1, entry_type = File, entry_name = ''x.md'', entry_path = ''lib/001-a''\<rparr>,
        \<lparr>entry_depth = 1, entry_type = Folder, entry_name = ''sub'', entry_path = ''lib/001-a''\<rparr>]"
      and files' = "[''lib/001-a/x.md'']" and out = "[]"]
    demo_walk demo_walk_deep demo_stat
  by (simp add: filePath_def demo_fs_def assign_def)

text \<open>
  Claim C4. The walker never raises, whatever the fuel. When reading the directory fails,
  it logs the failure and returns the accumulators it was given. It does return: on a
  file system where no path longer than \<open>bound\<close> can be examined, \<open>bound + 2\<close> units of
  fuel are enough, and the result is a tree with the entry list and the file list it was
  given, extended.
\<close>

theorem walker_returns_and_never_raises:
  "(\<forall>err out. listSubFolder fs fuel dirPath depth tree list files \<noteq> Some (Raise err, out)) \<and>
   (0 < fuel \<longrightarrow>
      (\<forall>err. readdirSync fs dirPath = Inl err \<longrightarrow>
         listSubFolder fs fuel dirPath depth tree list files =
           Some (Return (tree, list, files), [Error err]))) \<and>
   ((\<forall>p. bound < length p \<longrightarrow> isl (statSync fs p)) \<and> bound + 2 \<le> fuel \<longrightarrow>
      (\<exists>tree' added_list added_files out.
         listSubFolder fs fuel dirPath depth tree list files =
           Some (Return (tree', list @ added_list, files @ added_files), out)))"
proof (intro conjI impI allI)
  fix err out
  show "listSubFolder fs fuel dirPath depth tree list files \<noteq> Some (Raise err, out)"
    using walk_extends [of fs fuel dirPath depth tree list files "Raise err" out] by auto
next
  fix err
  assume "0 < fuel" "readdirSync fs dirPath = Inl err"
  then show "listSubFolder fs fuel dirPath depth tree list files =
      Some (Return (tree, list, files), [Error err])"
    by (cases fuel) simp_all
next
  assume "(\<forall>p. bound < length p \<longrightarrow> isl (statSync fs p)) \<and> bound + 2 \<le> fuel"
  then have "listSubFolder fs fuel dirPath depth tree list files \<noteq> None"
    by (intro walk_returns [where L = bound]) simp_all
  then obtain r out where run: "listSubFolder fs fuel dirPath depth tree list files = Some (r, out)"
    by auto
  from walk_extends [OF run] obtain tree' list' files' where
    "r = Return (tree', list', files')"
    "extends fs dirPath depth (tree, list, files) (tree', list', files')"
    by auto
  with run show "\<exists>tree' added_list added_files out.
         listSubFolder fs fuel dirPath depth tree list files =
           Some (Return (tree', list @ added_list, files @ added_files), out)"
    by (auto simp: extends_def)
qed

theorem walker_returns_and_never_raises_witness:
  "(0::nat) < 1 \<and> readdirSync denied_fs ''lib/'' = Inl (SystemError ''EACCES'') \<and>
   listSubFolder denied_fs 1 ''lib/'' 0 [] [] [] =
     Some (Return ([], [], []), [Error (SystemError ''EACCES'')]) \<and>
   \<not> (\<exists>p. 14 < length p \<and> \<not> isl (statSync demo_fs p)) \<and> (14::nat) + 2 \<le> 16 \<and>
   (\<exists>tree' added_list added_files out.
      listSubFolder demo_fs 16 ''lib/'' 0 [] [] [] =
        Some (Return (tree', [] @ added_list, [] @ added_files), out))"
proof -
  have bound: "\<forall>p. 14 < length p \<longrightarrow> isl (statSync demo_fs p)"
    by (auto simp: demo_fs_def)
  show ?thesis
    using walker_returns_and_never_raises
      [where fs = denied_fs and fuel = 1 and dirPath = "''lib/''" and depth = 0 and tree = "[]"
        and list = "[]" and files = "[]"]
      walker_returns_and_never_raises
      [where fs = demo_fs and fuel = 16 and dirPath = "''lib/''" and depth = 0 and tree = "[]"
        and list = "[]" and files = "[]" and bound = 14]
      bound
    by (simp add: denied_fs_def)
qed

subsection \<open>The library scan\<close>

lemma test_library_separator_iff:
  "test_library_separator path \<longleftrightarrow>
     (\<exists>pre sep. path = pre @ ''library'' @ [sep] \<and> (sep = backslash \<or> sep = slash))"
proof
  assume t: "test_library_separator path"
  let ?t = "drop (length path - 8) path"
  from t have len: "8 \<le> length path" and lib: "butlast ?t = ''library''"
    and sep: "last ?t = backslash \<or> last ?t = slash"
    by (simp_all add: test_library_separator_def Let_def)
  from len have "?t \<noteq> []" by simp
  then have "?t = butlast ?t @ [last ?t]" by (rule append_butlast_last_id [symmetric])
  with lib have "?t = ''library'' @ [last ?t]" by simp
  then have "path = take (length path - 8) path @ ''library'' @ [last ?t]"
    by (metis append_take_drop_id)
  with sep show "\<exists>pre sep. path = pre @ ''library'' @ [sep] \<and> (sep = backslash \<or> sep = slash)"
    by blast
next
  assume "\<exists>pre sep. path = pre @ ''library'' @ [sep] \<and> (sep = backslash \<or> sep = slash)"
  then obtain pre sep where "path = pre @ ''library'' @ [sep]" "sep = backslash \<or> sep = slash"
    by blast
  then show "test_library_separator path"
    by (auto simp: test_library_separator_def Let_def)
qed

lemma test_home_own_property: "test_home fileName \<Longrightarrow> fileName \<noteq> ''__proto__''"
  by (auto simp: test_home_def home_zh_def)

lemma seed_home_find:
  "seed_home names [] =
     (case find test_home names of None \<Rightarrow> [] | Some fileName \<Rightarrow> [(fileName, Leaf_false)])"
  by (induction names) (simp_all add: assign_def test_home_own_property)

text \<open>
  Claim C6, as the code has it. A path that does not end with the letters \<^verbatim>\<open>library\<close>
  and one separator gets the warning and the empty array. A path that does (so also one
  whose last segment only ends with these letters) has its directory read outside any
  guard: when the read fails the error is raised to the caller; when it succeeds the
  tree is seeded with at most one home entry, the first name of the listing that matches,
  and the result is that of the walker at depth 0 on this seed.
\<close>

theorem readLibraryTree_contract:
  "((\<nexists>pre sep. path = pre @ ''library'' @ [sep] \<and> (sep = backslash \<or> sep = slash)) \<longrightarrow>
      readLibraryTree fs fuel path = Some (Return None, [Warn ''The path is not a library.''])) \<and>
   ((\<exists>pre sep. path = pre @ ''library'' @ [sep] \<and> (sep = backslash \<or> sep = slash)) \<longrightarrow>
      (\<forall>err. readdirSync fs path = Inl err \<longrightarrow> readLibraryTree fs fuel path = Some (Raise err, [])) \<and>
      (\<forall>names. readdirSync fs path = Inr names \<longrightarrow>
         (\<exists>seed. seed = (case find test_home names of
                          None \<Rightarrow> []
                        | Some fileName \<Rightarrow> [(fileName, Leaf_false)]) \<and>
            length seed \<le> 1 \<and>
            readLibraryTree fs fuel path =
              map_option (map_prod (map_outcome Some) id) (listSubFolder fs fuel path 0 seed [] []))))"
proof (intro conjI impI allI)
  assume "\<nexists>pre sep. path = pre @ ''library'' @ [sep] \<and> (sep = backslash \<or> sep = slash)"
  then have "\<not> test_library_separator path" by (simp add: test_library_separator_iff)
  then show "readLibraryTree fs fuel path = Some (Return None, [Warn ''The path is not a library.''])"
    by (simp add: readLibraryTree_def)
next
  fix err
  assume "\<exists>pre sep. path = pre @ ''library'' @ [sep] \<and> (sep = backslash \<or> sep = slash)"
  then have "test_library_separator path" unfolding test_library_separator_iff .
  moreover assume "readdirSync fs path = Inl err"
  ultimately show "readLibraryTree fs fuel path = Some (Raise err, [])"
    by (simp add: readLibraryTree_def)
next
  fix names
  let ?seed = "case find test_home names of None \<Rightarrow> [] | Some fileName \<Rightarrow> [(fileName, Leaf_false)]"
  assume "\<exists>pre sep. path = pre @ ''library'' @ [sep] \<and> (sep = backslash \<or> sep = slash)"
  then have "test_library_separator path" unfolding test_library_separator_iff .
  moreover assume "readdirSync fs path = Inr names"
  ultimately have "readLibraryTree fs fuel path =
      map_option (map_prod (map_outcome Some) id) (listSubFolder fs fuel path 0 ?seed [] [])"
    by (simp add: readLibraryTree_def seed_home_find split: option.splits outcome.splits)
  moreover have "length ?seed \<le> 1" by (simp split: option.splits)
  ultimately show "\<exists>seed. seed = ?seed \<and> length seed \<le> 1 \<and>
      readLibraryTree fs fuel path =
        map_option (map_prod (map_outcome Some) id) (listSubFolder fs fuel path 0 seed [] [])"
    by blast
qed

lemma library_walk:
  "listSubFolder library_fs (Suc (Suc 0)) ''library/'' 0 [(''home-start.md'', Leaf_false)] [] [] =
   Some (Return
      ([(''home-start.md'', Leaf_false), (''001-a'', Subtree [(''x.md'', Leaf_false)])],
       [\<lparr>entry_depth = 0, entry_type = Folder, entry_name = ''001-a'', entry_path = ''library/''\<rparr>,
        \<lparr>entry_depth = 1, entry_type = File, entry_name = ''x.md'', entry_path = ''library/001-a''\<rparr>],
       [''library/001-a/x.md'']), [])"
  by (simp add: library_fs_def filePath_def assign_def)

lemma library_find:
  "find test_home [''notes.md'', ''home-start.md'', ''home_other.md'', ''001-a''] = Some ''home-start.md''"
  by (simp add: test_home_def no_line_terminator_def home_zh_def)

theorem readLibraryTree_contract_witness:
  "(\<nexists>pre sep. ''library'' = pre @ ''library'' @ [sep] \<and> (sep = backslash \<or> sep = slash)) \<and>
   readLibraryTree library_fs (Suc (Suc 0)) ''library'' =
     Some (Return None, [Warn ''The path is not a library.'']) \<and>
   (\<exists>pre sep. ''library/'' = pre @ ''library'' @ [sep] \<and> (sep = backslash \<or> sep = slash)) \<and>
   readdirSync denied_fs ''library/'' = Inl (SystemError ''EACCES'') \<and>
   readLibraryTree denied_fs (Suc (Suc 0)) ''library/'' = Some (Raise (SystemError ''EACCES''), []) \<and>
   readdirSync library_fs ''library/'' = Inr [''notes.md'', ''home-start.md'', ''home_other.md'', ''001-a''] \<and>
   readLibraryTree library_fs (Suc (Suc 0)) ''library/'' =
     Some (Return (Some
      ([(''home-start.md'', Leaf_false), (''001-a'', Subtree [(''x.md'', Leaf_false)])],
       [\<lparr>entry_depth = 0, entry_type = Folder, entry_name = ''001-a'', entry_path = ''library/''\<rparr>,
        \<lparr>entry_depth = 1, entry_type = File, entry_name = ''x.md'', entry_path = ''library/001-a''\<rparr>],
       [''library/001-a/x.md''])), [])"
proof -
  have no: "\<nexists>pre sep. ''library'' = pre @ ''library'' @ [sep] \<and> (sep = backslash \<or> sep = slash)"
    unfolding test_library_separator_iff [symmetric] by (simp add: test_library_separator_def)
  have yes: "\<exists>pre sep. ''library/'' = pre @ ''library'' @ [sep] \<and> (sep = backslash \<or> sep = slash)"
    unfolding test_library_separator_iff [symmetric]
    by (simp add: test_library_separator_def slash_def)
  have rd: "readdirSync denied_fs ''library/'' = Inl (SystemError ''EACCES'')"
    "readdirSync library_fs ''library/'' = Inr [''notes.md'', ''home-start.md'', ''home_other.md'', ''001-a'']"
    by (simp_all add: denied_fs_def library_fs_def)
  from readLibraryTree_contract [where fs = library_fs and fuel = "Suc (Suc 0)" and path = "''library''"] no
  have a: "readLibraryTree library_fs (Suc (Suc 0)) ''library'' =
     Some (Return None, [Warn ''The path is not a library.''])" by blast
  from readLibraryTree_contract [where fs = denied_fs and fuel = "Suc (Suc 0)" and path = "''library/''"]
    yes rd(1)
  have b: "readLibraryTree denied_fs (Suc (Suc 0)) ''library/'' = Some (Raise (SystemError ''EACCES''), [])"
    by blast
  from readLibraryTree_contract [where fs = library_fs and fuel = "Suc (Suc 0)" and path = "''library/''"]
    yes rd(2)
  have "readLibraryTree library_fs (Suc (Suc 0)) ''library/'' =
      map_option (map_prod (map_outcome Some) id)
        (listSubFolder library_fs (Suc (Suc 0)) ''library/'' 0
          (case find test_home [''notes.md'', ''home-start.md'', ''home_other.md'', ''001-a''] of
             None \<Rightarrow> [] | Some fileName \<Rightarrow> [(fileName, Leaf_false)]) [] [])"
    by blast
  then have c: "readLibraryTree library_fs (Suc (Suc 0)) ''library/'' =
     Some (Return (Some
      ([(''home-start.md'', Leaf_false), (''001-a'', Subtree [(''x.md'', Leaf_false)])],
       [\<lparr>entry_depth = 0, entry_type = Folder, entry_name = ''001-a'', entry_path = ''library/''\<rparr>,
        \<lparr>entry_depth = 1, entry_type = File, entry_name = ''x.md'', entry_path = ''library/001-a''\<rparr>],
       [''library/001-a/x.md''])), [])"
    unfolding library_find by (simp only: option.case library_walk) simp
  from no yes rd a b c show ?thesis by blast
qed

theorem readLibraryTree_counterexample:
  "readLibraryTree denied_fs (Suc 0) ''mylibrary/'' = Some (Raise (SystemError ''EACCES''), []) \<and>
   readLibraryTree denied_fs (Suc 0) ''library/'' = Some (Raise (SystemError ''EACCES''), []) \<and>
   listSubFolder denied_fs (Suc 0) ''library/'' 0 [] [] [] =
     Some (Return ([], [], []), [Error (SystemError ''EACCES'')])"
  by (simp add: readLibraryTree_def test_library_separator_def denied_fs_def slash_def)

lemma child_path_top: "is_child_path dirPath name (filePath dirPath 0 name) \<longleftrightarrow> ends_with_separator dirPath"
proof (cases "ends_with_separator dirPath")
  case True
  then have "dirPath = butlast dirPath @ [last dirPath]" "last dirPath = slash \<or> last dirPath = backslash"
    by (simp_all add: ends_with_separator_def)
  then have "dirPath = butlast dirPath @ [slash] \<or> dirPath = butlast dirPath @ [backslash]"
    by metis
  with True show ?thesis
    by (auto simp: is_child_path_def strip_trailing_separator_def filePath_def)
next
  case False
  then show ?thesis
    by (simp add: is_child_path_def strip_trailing_separator_def filePath_def)
qed

lemma child_path_deep:
  assumes "0 < depth"
  shows "is_child_path dirPath name (filePath dirPath depth name) \<longleftrightarrow> \<not> ends_with_separator dirPath"
proof (cases "ends_with_separator dirPath")
  case True
  then have "dirPath \<noteq> []" by (simp add: ends_with_separator_def)
  then have "length (butlast dirPath @ [c] @ name) \<noteq> length (dirPath @ ''/'' @ name)" for c
    by (cases dirPath rule: rev_cases) simp_all
  then have "butlast dirPath @ [c] @ name \<noteq> dirPath @ ''/'' @ name" for c
    by metis
  with True assms show ?thesis
    by (simp add: is_child_path_def strip_trailing_separator_def filePath_def) metis
next
  case False
  with assms show ?thesis
    by (simp add: is_child_path_def strip_trailing_separator_def filePath_def slash_def)
qed

lemma recorded_Nil: "recorded_by_child_path fs [] []"
  by (simp add: recorded_by_child_path_def)

lemma for_recorded:
  assumes walker: "\<And>dirPath depth r out. listSubFolder fs n dirPath depth [] [] [] = Some (r, out)
      \<Longrightarrow> \<exists>t l f. r = Return (t, l, f) \<and> recorded_by_child_path fs l f"
  shows "listSubFolder_for fs n dirPath depth names tree list files = Some (err, (tree', list', files'), out)
     \<Longrightarrow> \<exists>la fa. list' = list @ la \<and> files' = files @ fa \<and> recorded_by_child_path fs la fa"
proof (induction names arbitrary: tree list files out)
  case Nil
  then show ?case using recorded_Nil by auto
next
  case (Cons x xs)
  note run = Cons.prems
  show ?case
  proof (cases rule: for_step_cases [where x = x and fs = fs and dirPath = dirPath and depth = depth and n = n])
    case hidden
    from run show ?thesis unfolding for_hidden [OF hidden] by (rule Cons.IH)
  next
    case (stat_error e)
    from run show ?thesis unfolding for_stat_error [OF stat_error] using recorded_Nil by auto
  next
    case file_deep
    let ?e = "\<lparr>entry_depth = depth, entry_type = File, entry_name = x, entry_path = dirPath\<rparr>"
    from run obtain la fa where "list' = (list @ [?e]) @ la"
      "files' = (files @ [filePath dirPath depth x]) @ fa" "recorded_by_child_path fs la fa"
      unfolding for_file_deep [OF file_deep] by (blast dest: Cons.IH)
    moreover from this file_deep(2)
    have "recorded_by_child_path fs (?e # la) (filePath dirPath depth x # fa)"
      by (simp add: recorded_by_child_path_def entry_child_path_def)
    ultimately show ?thesis by (intro exI [of _ "?e # la"] exI [of _ "filePath dirPath depth x # fa"]) simp
  next
    case file_top
    from run show ?thesis unfolding for_file_top [OF file_top] by (rule Cons.IH)
  next
    case none
    from run show ?thesis unfolding for_folder_none [OF none] by simp
  next
    case (raise e out')
    from run show ?thesis unfolding for_folder_raise [OF raise] using recorded_Nil by auto
  next
    case (folder subTree subList subFiles out')
    let ?e = "\<lparr>entry_depth = depth, entry_type = Folder, entry_name = x, entry_path = dirPath\<rparr>"
    from walker [OF folder(3)] have sub: "recorded_by_child_path fs subList subFiles" by simp
    from run obtain out'' where "listSubFolder_for fs n dirPath depth xs (assign x (Subtree subTree) tree)
        (list @ ?e # subList) (files @ subFiles) = Some (err, (tree', list', files'), out'')"
      unfolding for_folder [OF folder] by (auto split: option.splits)
    then obtain la fa where "list' = (list @ ?e # subList) @ la"
      "files' = (files @ subFiles) @ fa" "recorded_by_child_path fs la fa"
      by (blast dest: Cons.IH)
    moreover from this sub folder(2)
    have "recorded_by_child_path fs (?e # subList @ la) (subFiles @ fa)"
      by (auto simp: recorded_by_child_path_def entry_child_path_def)
    ultimately show ?thesis by (intro exI [of _ "?e # subList @ la"] exI [of _ "subFiles @ fa"]) simp
  qed
qed

lemma walk_recorded:
  "listSubFolder fs fuel dirPath depth tree list files = Some (r, out)
     \<Longrightarrow> \<exists>tree' la fa. r = Return (tree', list @ la, files @ fa) \<and> recorded_by_child_path fs la fa"
proof (induction fuel arbitrary: dirPath depth tree list files r out)
  case 0
  then show ?case by simp
next
  case (Suc n)
  show ?case
  proof (cases "readdirSync fs dirPath")
    case (Inl e)
    with Suc.prems show ?thesis using recorded_Nil by auto
  next
    case (Inr names)
    with Suc.prems obtain err tree' list' files' out' where
      run: "listSubFolder_for fs n dirPath depth names tree list files = Some (err, (tree', list', files'), out')"
      and r: "r = Return (tree', list', files')"
      by (auto split: option.splits)
    have "\<exists>la fa. list' = list @ la \<and> files' = files @ fa \<and> recorded_by_child_path fs la fa"
      using run
    proof (rule for_recorded [rotated])
      fix dirPath depth r out
      assume "listSubFolder fs n dirPath depth [] [] [] = Some (r, out)"
      from Suc.IH [OF this] show "\<exists>t l f. r = Return (t, l, f) \<and> recorded_by_child_path fs l f"
        by simp
    qed
    with r show ?thesis by auto
  qed
qed

lemma bare_walk:
  "listSubFolder bare_fs (Suc (Suc 0)) ''lib/'' 0 [] [] [] =
     Some (Return
      ([(''001-a'', Subtree [(''x.md'', Leaf_false)])],
       [\<lparr>entry_depth = 0, entry_type = Folder, entry_name = ''001-a'', entry_path = ''lib/''\<rparr>,
        \<lparr>entry_depth = 1, entry_type = File, entry_name = ''x.md'', entry_path = ''lib/001-a''\<rparr>],
       [''lib/001-a/x.md'']), [])"
  "listSubFolder bare_fs (Suc (Suc 0)) ''lib'' 0 [] [] [] =
     Some (Return ([], [], []), [Error (SystemError ''ENOENT'')])"
  by (simp_all add: bare_fs_def filePath_def assign_def)


text \<open>
  Claim C10. The child path the walker uses is the directory path and the name with a
  slash between them only at a depth above 0; at depth 0 it is the two strings joined.
  So at depth 0 it is the path of the entry exactly when the directory path ends with a
  separator, and above depth 0 exactly when it does not. The walker uses this path at
  every depth: a failure of \<^verbatim>\<open>statSync\<close> at it ends the loop, a directory at it is walked
  at it one level down, and a file at it is recorded with it in the file list. In every
  result each added entry is what the file system said of the child path of its record,
  and the added file paths are the child paths of the added file entries, in order.
  \<open>readLibraryTree\<close> returns results of the walker only for a path that ends with a
  separator, for which the child paths at depth 0 are the paths of the entries. The two
  walks at the end are of one folder, read as \<^verbatim>\<open>lib/\<close> and as \<^verbatim>\<open>lib\<close>: the first records
  the folder and the file inside, the second asks about \<^verbatim>\<open>lib001-a\<close>, which is not
  there, logs the failure and returns nothing.
\<close>

theorem child_paths_need_trailing_separator:
  "filePath dirPath 0 name = dirPath @ name \<and>
   filePath dirPath 0 name \<noteq> dirPath @ ''/'' @ name \<and>
   (0 < depth \<longrightarrow> filePath dirPath depth name = dirPath @ ''/'' @ name) \<and>
   (is_child_path dirPath name (filePath dirPath 0 name) \<longleftrightarrow> ends_with_separator dirPath) \<and>
   (0 < depth \<longrightarrow>
      (is_child_path dirPath name (filePath dirPath depth name) \<longleftrightarrow> \<not> ends_with_separator dirPath)) \<and>
   (\<not> test_hidden name \<and>
    statSync fs (dirPath @ (if 0 < depth then ''/'' else []) @ name) = Inl err \<longrightarrow>
      listSubFolder_for fs n dirPath depth (name # names) tree list files =
        Some (Some err, (tree, list, files), [])) \<and>
   (\<not> test_hidden name \<and>
    statSync fs (dirPath @ (if 0 < depth then ''/'' else []) @ name) = Inr True \<longrightarrow>
      listSubFolder_for fs n dirPath depth (name # names) tree list files =
        (case listSubFolder fs n (dirPath @ (if 0 < depth then ''/'' else []) @ name) (depth + 1)
                [] [] [] of
           None \<Rightarrow> None
         | Some (Raise err_sub, out_sub) \<Rightarrow> Some (Some err_sub, (tree, list, files), out_sub)
         | Some (Return (subTree, subList, subFiles), out_sub) \<Rightarrow>
             (case listSubFolder_for fs n dirPath depth names
                     (assign name (Subtree subTree) tree)
                     (list @ \<lparr>entry_depth = depth, entry_type = Folder,
                              entry_name = name, entry_path = dirPath\<rparr> # subList)
                     (files @ subFiles) of
                None \<Rightarrow> None
              | Some (err_rest, acc, out_rest) \<Rightarrow> Some (err_rest, acc, out_sub @ out_rest)))) \<and>
   (\<not> test_hidden name \<and> 0 < depth \<and> statSync fs (dirPath @ ''/'' @ name) = Inr False \<longrightarrow>
      listSubFolder_for fs n dirPath depth (name # names) tree list files =
        listSubFolder_for fs n dirPath depth names
          (assign name Leaf_false tree)
          (list @ [\<lparr>entry_depth = depth, entry_type = File,
                    entry_name = name, entry_path = dirPath\<rparr>])
          (files @ [dirPath @ ''/'' @ name])) \<and>
   (listSubFolder fs fuel dirPath depth tree list files = Some (Return (tree', list', files'), out) \<longrightarrow>
      (\<exists>added_list.
         list' = list @ added_list \<and>
         files' = files @ map entry_child_path (filter (\<lambda>e. entry_type e = File) added_list) \<and>
         (\<forall>e\<in>set added_list. statSync fs (entry_child_path e) = Inr (entry_type e = Folder)) \<and>
         (\<forall>e\<in>set added_list. depth \<le> entry_depth e \<and>
            (entry_depth e = depth \<longrightarrow> entry_path e = dirPath)))) \<and>
   (listSubFolder fs fuel dirPath 0 tree list files = Some (Return (tree', list', files'), out) \<longrightarrow>
      (\<exists>added_list added_files.
         list' = list @ added_list \<and> files' = files @ added_files \<and>
         (\<forall>e\<in>set added_list. entry_depth e = 0 \<longrightarrow>
            statSync fs (dirPath @ entry_name e) = Inr True) \<and>
         (\<forall>p\<in>set added_files. \<exists>folder rest. p = dirPath @ folder @ ''/'' @ rest))) \<and>
   (readLibraryTree fs fuel path = Some (Return (Some result), out_lib) \<longrightarrow>
      ends_with_separator path \<and> is_child_path path name (filePath path 0 name)) \<and>
   listSubFolder bare_fs (Suc (Suc 0)) ''lib/'' 0 [] [] [] =
     Some (Return
      ([(''001-a'', Subtree [(''x.md'', Leaf_false)])],
       [\<lparr>entry_depth = 0, entry_type = Folder, entry_name = ''001-a'', entry_path = ''lib/''\<rparr>,
        \<lparr>entry_depth = 1, entry_type = File, entry_name = ''x.md'', entry_path = ''lib/001-a''\<rparr>],
       [''lib/001-a/x.md'']), []) \<and>
   listSubFolder bare_fs (Suc (Suc 0)) ''lib'' 0 [] [] [] =
     Some (Return ([], [], []), [Error (SystemError ''ENOENT'')])"
proof (intro conjI impI)
  show "filePath dirPath 0 name = dirPath @ name" by (simp add: filePath_def)
  show "filePath dirPath 0 name \<noteq> dirPath @ ''/'' @ name" by (simp add: filePath_def)
  show "filePath dirPath depth name = dirPath @ ''/'' @ name" if "0 < depth"
    using that by (simp add: filePath_def)
  show "is_child_path dirPath name (filePath dirPath 0 name) \<longleftrightarrow> ends_with_separator dirPath"
    by (rule child_path_top)
  show "is_child_path dirPath name (filePath dirPath depth name) \<longleftrightarrow> \<not> ends_with_separator dirPath"
    if "0 < depth" using that by (rule child_path_deep)
next
  assume "\<not> test_hidden name \<and>
    statSync fs (dirPath @ (if 0 < depth then ''/'' else []) @ name) = Inl err"
  then have "\<not> test_hidden name" "statSync fs (filePath dirPath depth name) = Inl err"
    by (simp_all add: filePath_def)
  then show "listSubFolder_for fs n dirPath depth (name # names) tree list files =
        Some (Some err, (tree, list, files), [])"
    by (rule for_stat_error)
next
  assume a: "\<not> test_hidden name \<and>
    statSync fs (dirPath @ (if 0 < depth then ''/'' else []) @ name) = Inr True"
  have fp: "dirPath @ (if 0 < depth then ''/'' else []) @ name = filePath dirPath depth name"
    by (simp add: filePath_def)
  from a show "listSubFolder_for fs n dirPath depth (name # names) tree list files =
        (case listSubFolder fs n (dirPath @ (if 0 < depth then ''/'' else []) @ name) (depth + 1)
                [] [] [] of
           None \<Rightarrow> None
         | Some (Raise err_sub, out_sub) \<Rightarrow> Some (Some err_sub, (tree, list, files), out_sub)
         | Some (Return (subTree, subList, subFiles), out_sub) \<Rightarrow>
             (case listSubFolder_for fs n dirPath depth names
                     (assign name (Subtree subTree) tree)
                     (list @ \<lparr>entry_depth = depth, entry_type = Folder,
                              entry_name = name, entry_path = dirPath\<rparr> # subList)
                     (files @ subFiles) of
                None \<Rightarrow> None
              | Some (err_rest, acc, out_rest) \<Rightarrow> Some (err_rest, acc, out_sub @ out_rest)))"
    unfolding fp by simp
next
  assume "\<not> test_hidden name \<and> 0 < depth \<and> statSync fs (dirPath @ ''/'' @ name) = Inr False"
  then have f: "\<not> test_hidden name" "statSync fs (filePath dirPath depth name) = Inr False" "0 < depth"
    and fp: "filePath dirPath depth name = dirPath @ ''/'' @ name"
    by (simp_all add: filePath_def)
  show "listSubFolder_for fs n dirPath depth (name # names) tree list files =
        listSubFolder_for fs n dirPath depth names
          (assign name Leaf_false tree)
          (list @ [\<lparr>entry_depth = depth, entry_type = File,
                    entry_name = name, entry_path = dirPath\<rparr>])
          (files @ [dirPath @ ''/'' @ name])"
    unfolding for_file_deep [OF f] fp ..
next
  assume run: "listSubFolder fs fuel dirPath depth tree list files = Some (Return (tree', list', files'), out)"
  from walk_recorded [OF run] obtain la fa where la: "list' = list @ la" "files' = files @ fa"
    and rec: "recorded_by_child_path fs la fa" by auto
  from walk_extends [OF run] obtain lb where lb: "list' = list @ lb" "\<forall>e\<in>set lb. entry_ok fs dirPath depth e"
    by (auto simp: extends_def)
  from la(1) lb(1) have "lb = la" by simp
  with lb(2) have "\<forall>e\<in>set la. depth \<le> entry_depth e \<and> (entry_depth e = depth \<longrightarrow> entry_path e = dirPath)"
    by (simp add: entry_ok_def)
  with la rec show "\<exists>added_list.
         list' = list @ added_list \<and>
         files' = files @ map entry_child_path (filter (\<lambda>e. entry_type e = File) added_list) \<and>
         (\<forall>e\<in>set added_list. statSync fs (entry_child_path e) = Inr (entry_type e = Folder)) \<and>
         (\<forall>e\<in>set added_list. depth \<le> entry_depth e \<and>
            (entry_depth e = depth \<longrightarrow> entry_path e = dirPath))"
    unfolding recorded_by_child_path_def by blast
next
  assume run: "listSubFolder fs fuel dirPath 0 tree list files = Some (Return (tree', list', files'), out)"
  from walk_extends [OF run] obtain la fa where la: "list' = list @ la" "\<forall>e\<in>set la. entry_ok fs dirPath 0 e"
    and fa: "files' = files @ fa" "\<forall>p\<in>set fa. path_ok dirPath 0 p"
    by (auto simp: extends_def)
  have "statSync fs (dirPath @ entry_name e) = Inr True" if "e \<in> set la" "entry_depth e = 0" for e
    using la(2) [rule_format, OF that(1)] that(2)
    by (cases "entry_type e") (auto simp: entry_ok_def filePath_def)
  moreover have "\<exists>folder rest. p = dirPath @ folder @ ''/'' @ rest" if "p \<in> set fa" for p
    using fa(2) [rule_format, OF that] by (simp add: path_ok_def)
  ultimately show "\<exists>added_list added_files.
         list' = list @ added_list \<and> files' = files @ added_files \<and>
         (\<forall>e\<in>set added_list. entry_depth e = 0 \<longrightarrow>
            statSync fs (dirPath @ entry_name e) = Inr True) \<and>
         (\<forall>p\<in>set added_files. \<exists>folder rest. p = dirPath @ folder @ ''/'' @ rest)"
    using la(1) fa(1) by blast
next
  assume run: "readLibraryTree fs fuel path = Some (Return (Some result), out_lib)"
  then have "test_library_separator path"
    by (auto simp: readLibraryTree_def split: if_splits)
  then obtain pre sep where "path = pre @ ''library'' @ [sep]" "sep = backslash \<or> sep = slash"
    unfolding test_library_separator_iff by blast
  then show e: "ends_with_separator path" by (auto simp: ends_with_separator_def)
  then show "is_child_path path name (filePath path 0 name)" by (simp add: child_path_top)
next
  show "listSubFolder bare_fs (Suc (Suc 0)) ''lib/'' 0 [] [] [] =
     Some (Return
      ([(''001-a'', Subtree [(''x.md'', Leaf_false)])],
       [\<lparr>entry_depth = 0, entry_type = Folder, entry_name = ''001-a'', entry_path = ''lib/''\<rparr>,
        \<lparr>entry_depth = 1, entry_type = File, entry_name = ''x.md'', entry_path = ''lib/001-a''\<rparr>],
       [''lib/001-a/x.md'']), [])"
    by (rule bare_walk)
  show "listSubFolder bare_fs (Suc (Suc 0)) ''lib'' 0 [] [] [] =
     Some (Return ([], [], []), [Error (SystemError ''ENOENT'')])"
    by (rule bare_walk)
qed

lemma library_read:
  "readLibraryTree library_fs (Suc (Suc 0)) ''library/'' =
     Some (Return (Some
      ([(''home-start.md'', Leaf_false), (''001-a'', Subtree [(''x.md'', Leaf_false)])],
       [\<lparr>entry_depth = 0, entry_type = Folder, entry_name = ''001-a'', entry_path = ''library/''\<rparr>,
        \<lparr>entry_depth = 1, entry_type = File, entry_name = ''x.md'', entry_path = ''library/001-a''\<rparr>],
       [''library/001-a/x.md''])), [])"
proof -
  have "readdirSync library_fs ''library/'' =
      Inr [''notes.md'', ''home-start.md'', ''home_other.md'', ''001-a'']"
    by (simp add: library_fs_def)
  moreover have "test_library_separator ''library/''"
    by (simp add: test_library_separator_def slash_def)
  ultimately show ?thesis
    by (simp add: readLibraryTree_def test_home_def no_line_terminator_def home_zh_def
        assign_def library_walk del: listSubFolder.simps)
qed

theorem child_paths_need_trailing_separator_witness:
  "(0::nat) < 1 \<and> filePath ''lib/001-a'' 1 ''x.md'' = ''lib/001-a'' @ ''/'' @ ''x.md'' \<and>
   ends_with_separator ''lib/'' \<and> is_child_path ''lib/'' ''001-a'' (filePath ''lib/'' 0 ''001-a'') \<and>
   \<not> ends_with_separator ''lib'' \<and> \<not> is_child_path ''lib'' ''001-a'' (filePath ''lib'' 0 ''001-a'') \<and>
   \<not> ends_with_separator ''lib/001-a'' \<and>
   is_child_path ''lib/001-a'' ''x.md'' (filePath ''lib/001-a'' 1 ''x.md'') \<and>
   \<not> test_hidden ''001-a'' \<and>
   statSync bare_fs (''lib'' @ (if (0::nat) < 0 then ''/'' else []) @ ''001-a'') =
     Inl (SystemError ''ENOENT'') \<and>
   listSubFolder_for bare_fs (Suc 0) ''lib'' 0 (''001-a'' # []) [] [] [] =
     Some (Some (SystemError ''ENOENT''), ([], [], []), []) \<and>
   \<not> test_hidden ''x.md'' \<and> statSync bare_fs (''lib/001-a'' @ ''/'' @ ''x.md'') = Inr False \<and>
   listSubFolder_for bare_fs 0 ''lib/001-a'' 1 (''x.md'' # []) [] [] [] =
     listSubFolder_for bare_fs 0 ''lib/001-a'' 1 []
       (assign ''x.md'' Leaf_false [])
       ([] @ [\<lparr>entry_depth = 1, entry_type = File, entry_name = ''x.md'', entry_path = ''lib/001-a''\<rparr>])
       ([] @ [''lib/001-a'' @ ''/'' @ ''x.md'']) \<and>
   listSubFolder bare_fs (Suc (Suc 0)) ''lib/'' 0 [] [] [] =
     Some (Return
      ([(''001-a'', Subtree [(''x.md'', Leaf_false)])],
       [\<lparr>entry_depth = 0, entry_type = Folder, entry_name = ''001-a'', entry_path = ''lib/''\<rparr>,
        \<lparr>entry_depth = 1, entry_type = File, entry_name = ''x.md'', entry_path = ''lib/001-a''\<rparr>],
       [''lib/001-a/x.md'']), []) \<and>
   (\<exists>added_list.
      [\<lparr>entry_depth = 0, entry_type = Folder, entry_name = ''001-a'', entry_path = ''lib/''\<rparr>,
       \<lparr>entry_depth = 1, entry_type = File, entry_name = ''x.md'', entry_path = ''lib/001-a''\<rparr>]
        = [] @ added_list \<and>
      [''lib/001-a/x.md''] = [] @ map entry_child_path (filter (\<lambda>e. entry_type e = File) added_list) \<and>
      (\<forall>e\<in>set added_list. statSync bare_fs (entry_child_path e) = Inr (entry_type e = Folder)) \<and>
      (\<forall>e\<in>set added_list. 0 \<le> entry_depth e \<and> (entry_depth e = 0 \<longrightarrow> entry_path e = ''lib/''))) \<and>
   readLibraryTree library_fs (Suc (Suc 0)) ''library/'' =
     Some (Return (Some
      ([(''home-start.md'', Leaf_false), (''001-a'', Subtree [(''x.md'', Leaf_false)])],
       [\<lparr>entry_depth = 0, entry_type = Folder, entry_name = ''001-a'', entry_path = ''library/''\<rparr>,
        \<lparr>entry_depth = 1, entry_type = File, entry_name = ''x.md'', entry_path = ''library/001-a''\<rparr>],
       [''library/001-a/x.md''])), []) \<and>
   ends_with_separator ''library/'' \<and>
   is_child_path ''library/'' ''001-a'' (filePath ''library/'' 0 ''001-a'')"
proof -
  have pos: "(0::nat) < 1" by simp
  have a: "filePath ''lib/001-a'' 1 ''x.md'' = ''lib/001-a'' @ ''/'' @ ''x.md''"
    by (rule child_paths_need_trailing_separator
        [where dirPath = "''lib/001-a''" and depth = 1 and name = "''x.md''",
          THEN conjunct2, THEN conjunct2, THEN conjunct1, THEN mp, OF pos])
  have ends: "ends_with_separator ''lib/''" "\<not> ends_with_separator ''lib''"
    "\<not> ends_with_separator ''lib/001-a''"
    by (simp_all add: ends_with_separator_def slash_def backslash_def)
  have b: "is_child_path ''lib/'' ''001-a'' (filePath ''lib/'' 0 ''001-a'')"
    by (rule child_paths_need_trailing_separator
        [where dirPath = "''lib/''" and name = "''001-a''",
          THEN conjunct2, THEN conjunct2, THEN conjunct2, THEN conjunct1, THEN iffD2, OF ends(1)])
  have c: "\<not> is_child_path ''lib'' ''001-a'' (filePath ''lib'' 0 ''001-a'')"
    using child_paths_need_trailing_separator
        [where dirPath = "''lib''" and name = "''001-a''",
          THEN conjunct2, THEN conjunct2, THEN conjunct2, THEN conjunct1] ends(2)
    by (rule iffD1 [OF Not_eq_iff [symmetric], THEN iffD2])
  have d: "is_child_path ''lib/001-a'' ''x.md'' (filePath ''lib/001-a'' 1 ''x.md'')"
    by (rule child_paths_need_trailing_separator
        [where dirPath = "''lib/001-a''" and depth = 1 and name = "''x.md''",
          THEN conjunct2, THEN conjunct2, THEN conjunct2, THEN conjunct2, THEN conjunct1,
          THEN mp, OF pos, THEN iffD2, OF ends(3)])
  have st: "\<not> test_hidden ''001-a''"
    "statSync bare_fs (''lib'' @ (if (0::nat) < 0 then ''/'' else []) @ ''001-a'') =
       Inl (SystemError ''ENOENT'')"
    by (simp_all add: bare_fs_def)
  have e: "listSubFolder_for bare_fs (Suc 0) ''lib'' 0 (''001-a'' # []) [] [] [] =
     Some (Some (SystemError ''ENOENT''), ([], [], []), [])"
    by (rule child_paths_need_trailing_separator
        [where fs = bare_fs and dirPath = "''lib''" and depth = 0 and name = "''001-a''"
          and err = "SystemError ''ENOENT''",
          THEN conjunct2, THEN conjunct2, THEN conjunct2, THEN conjunct2, THEN conjunct2,
          THEN conjunct1, THEN mp])
      (intro conjI st)
  have fl: "\<not> test_hidden ''x.md''" "statSync bare_fs (''lib/001-a'' @ ''/'' @ ''x.md'') = Inr False"
    by (simp_all add: bare_fs_def)
  have f: "listSubFolder_for bare_fs 0 ''lib/001-a'' 1 (''x.md'' # []) [] [] [] =
     listSubFolder_for bare_fs 0 ''lib/001-a'' 1 []
       (assign ''x.md'' Leaf_false [])
       ([] @ [\<lparr>entry_depth = 1, entry_type = File, entry_name = ''x.md'', entry_path = ''lib/001-a''\<rparr>])
       ([] @ [''lib/001-a'' @ ''/'' @ ''x.md''])"
    by (rule child_paths_need_trailing_separator
        [where fs = bare_fs and dirPath = "''lib/001-a''" and depth = 1 and name = "''x.md''",
          THEN conjunct2, THEN conjunct2, THEN conjunct2, THEN conjunct2, THEN conjunct2,
          THEN conjunct2, THEN conjunct2, THEN conjunct1, THEN mp])
      (intro conjI fl pos)
  have g: "\<exists>added_list.
      [\<lparr>entry_depth = 0, entry_type = Folder, entry_name = ''001-a'', entry_path = ''lib/''\<rparr>,
       \<lparr>entry_depth = 1, entry_type = File, entry_name = ''x.md'', entry_path = ''lib/001-a''\<rparr>]
        = [] @ added_list \<and>
      [''lib/001-a/x.md''] = [] @ map entry_child_path (filter (\<lambda>e. entry_type e = File) added_list) \<and>
      (\<forall>e\<in>set added_list. statSync bare_fs (entry_child_path e) = Inr (entry_type e = Folder)) \<and>
      (\<forall>e\<in>set added_list. 0 \<le> entry_depth e \<and> (entry_depth e = 0 \<longrightarrow> entry_path e = ''lib/''))"
    by (rule child_paths_need_trailing_separator
        [THEN conjunct2, THEN conjunct2, THEN conjunct2, THEN conjunct2, THEN conjunct2,
          THEN conjunct2, THEN conjunct2, THEN conjunct2, THEN conjunct1, THEN mp,
          OF bare_walk(1)])
  have h: "ends_with_separator ''library/'' \<and>
      is_child_path ''library/'' ''001-a'' (filePath ''library/'' 0 ''001-a'')"
    by (rule child_paths_need_trailing_separator
        [THEN conjunct2, THEN conjunct2, THEN conjunct2, THEN conjunct2, THEN conjunct2,
          THEN conjunct2, THEN conjunct2, THEN conjunct2, THEN conjunct2, THEN conjunct2,
          THEN conjunct1, THEN mp, OF library_read])
  from pos a ends b c d st e fl f bare_walk(1) g library_read h show ?thesis by blast
qed

subsection \<open>Failures of the file system\<close>

lemma cleanFolder_for_append:
  "cleanFolder_for ops n fs path (xs @ ys) =
     (case cleanFolder_for ops n fs path xs of
        None \<Rightarrow> None
      | Some (Raise err, fs') \<Rightarrow> Some (Raise err, fs')
      | Some (Return u, fs') \<Rightarrow> cleanFolder_for ops n fs' path ys)"
  by (induction xs arbitrary: fs)
    (simp_all split: sum.splits bool.splits option.splits outcome.splits prod.splits)

text \<open>
  Claim C5, as the code has it. In the walker the \<^verbatim>\<open>try\<close> block holds the whole loop, so a
  failure of \<^verbatim>\<open>statSync\<close> on an entry is caught like a failure of the directory read: it
  is logged and the accumulators of that moment are returned. Elsewhere nothing is
  caught: in \<open>cleanFolder\<close> a failure of the directory read, of \<^verbatim>\<open>statSync\<close>, of
  \<^verbatim>\<open>unlinkSync\<close>, of \<^verbatim>\<open>rmdirSync\<close> or of the nested call is raised to the caller, with the
  file system as it is at that moment, and in \<open>createFolder\<close> a failure of \<^verbatim>\<open>mkdirSync\<close>,
  of the call on the parent, or of the second call on the path itself once the parent is
  made, is raised to the caller: when the parent was made, the call is that second call.
  The last part is such a run: the parent \<^verbatim>\<open>lib/new/\<close> is made, making \<^verbatim>\<open>lib/new/x\<close> fails,
  and the failure is raised with the parent in place.
\<close>

theorem failures_caught_in_walk_raised_elsewhere:
  "(readdirSync fs dirPath = Inr (pre @ name # post) \<and>
    listSubFolder_for fs n dirPath depth pre tree list files = Some (None, acc, out_pre) \<and>
    \<not> test_hidden name \<and> statSync fs (filePath dirPath depth name) = Inl err \<longrightarrow>
      listSubFolder fs (Suc n) dirPath depth tree list files =
        Some (Return acc, out_pre @ [Error err])) \<and>
   (readdirSync fs path = Inl err \<longrightarrow> cleanFolder ops (Suc n) fs path = Some (Raise err, fs)) \<and>
   (readdirSync fs path = Inr (items_done @ item # items_left) \<and>
    cleanFolder_for ops n fs path items_done = Some (Return (), fs_now) \<longrightarrow>
      (statSync fs_now (replace_ampersand path @ item) = Inl err \<longrightarrow>
         cleanFolder ops (Suc n) fs path = Some (Raise err, fs_now)) \<and>
      (statSync fs_now (replace_ampersand path @ item) = Inr False \<and>
       unlinkSync ops fs_now (replace_ampersand path @ item) = Inl err \<longrightarrow>
         cleanFolder ops (Suc n) fs path = Some (Raise err, fs_now)) \<and>
      (statSync fs_now (replace_ampersand path @ item) = Inr True \<and> \<not> test_hidden item \<and>
       cleanFolder ops n fs_now (replace_ampersand path @ item) = Some (Return (), fs_sub) \<and>
       rmdirSync ops fs_sub (replace_ampersand path @ item) = Inl err \<longrightarrow>
         cleanFolder ops (Suc n) fs path = Some (Raise err, fs_sub)) \<and>
      (statSync fs_now (replace_ampersand path @ item) = Inr True \<and> \<not> test_hidden item \<and>
       cleanFolder ops n fs_now (replace_ampersand path @ item) = Some (Raise err, fs_sub) \<longrightarrow>
         cleanFolder ops (Suc n) fs path = Some (Raise err, fs_sub))) \<and>
   (existsSync_value fs (getParentFolder path) \<and> \<not> existsSync fs path \<and>
    mkdirSync ops fs path 511 = Inl err \<longrightarrow>
      createFolder ops (Suc n) fs (Some path) = Some (Raise err, fs)) \<and>
   (\<not> existsSync_value fs (getParentFolder path) \<and>
    createFolder ops n fs (getParentFolder path) = Some (Raise err, fs_sub) \<longrightarrow>
      createFolder ops (Suc n) fs (Some path) = Some (Raise err, fs_sub)) \<and>
   (\<not> existsSync_value fs (getParentFolder path) \<and>
    createFolder ops n fs (getParentFolder path) = Some (Return (), fs_sub) \<longrightarrow>
      createFolder ops (Suc n) fs (Some path) = createFolder ops n fs_sub (Some path)) \<and>
   (\<not> existsSync_value fs (getParentFolder path) \<and>
    createFolder ops n fs (getParentFolder path) = Some (Return (), fs_sub) \<and>
    createFolder ops n fs_sub (Some path) = Some (Raise err, fs_end) \<longrightarrow>
      createFolder ops (Suc n) fs (Some path) = Some (Raise err, fs_end)) \<and>
   createFolder one_folder_ops (Suc (Suc 0)) demo_fs (Some ''lib/new/x'') =
     Some (Raise (SystemError ''EACCES''),
       demo_fs\<lparr>existsSync := (\<lambda>q. q = ''lib/new/'' \<or> existsSync demo_fs q)\<rparr>)"
proof -
  have walk: "listSubFolder fs (Suc n) dirPath depth tree list files =
        Some (Return acc, out_pre @ [Error err])"
    if "readdirSync fs dirPath = Inr (pre @ name # post)"
      "listSubFolder_for fs n dirPath depth pre tree list files = Some (None, acc, out_pre)"
      "\<not> test_hidden name" "statSync fs (filePath dirPath depth name) = Inl err"
  proof -
    obtain t l f where acc: "acc = (t, l, f)" by (cases acc)
    have "listSubFolder_for fs n dirPath depth (pre @ name # post) tree list files =
        Some (Some err, acc, out_pre)"
      unfolding for_append that(2) acc for_stat_error [OF that(3,4)] by simp
    with that(1) show ?thesis by simp
  qed
  have clean: "cleanFolder ops (Suc n) fs path = cleanFolder_for ops n fs_now path (item # items_left)"
    if "readdirSync fs path = Inr (items_done @ item # items_left)"
      "cleanFolder_for ops n fs path items_done = Some (Return (), fs_now)"
    using that by (simp add: cleanFolder_for_append del: cleanFolder_for.simps)
  have nested: "createFolder one_folder_ops (Suc (Suc 0)) demo_fs (Some ''lib/new/x'') =
     Some (Raise (SystemError ''EACCES''),
       demo_fs\<lparr>existsSync := (\<lambda>q. q = ''lib/new/'' \<or> existsSync demo_fs q)\<rparr>)"
    by (simp add: getParentFolder_eval existsSync_value_def one_folder_ops_def
        demo_fs_def [THEN arg_cong [where f = existsSync]])
  show ?thesis
    using walk clean nested by (auto split: option.splits)
qed

theorem failures_caught_in_walk_raised_elsewhere_counterexample:
  "statSync vanished_fs (filePath ''lib/'' 0 ''gone'') = Inl (SystemError ''ENOENT'') \<and>
   listSubFolder vanished_fs (Suc 0) ''lib/'' 0 [] [] [] =
     Some (Return ([], [], []), [Error (SystemError ''ENOENT'')])"
  by (simp add: vanished_fs_def filePath_def)

text \<open>
  Claim C8. Called without the second argument, \<open>getLevel1Id\<close> returns the empty string
  or throws a TypeError, and nothing else: for \<^verbatim>\<open>/p/library/001-a/x.md\<close> it throws on
  every file system, where the claim promises \<^verbatim>\<open>001\<close>, the value that the call returns
  when the library path is passed.
\<close>

theorem getLevel1Id_without_libPath:
  "(getLevel1Id less_than_8 fs path None = Return [] \<or>
    getLevel1Id less_than_8 fs path None = Raise TypeError) \<and>
   getLevel1Id less_than_8 fs ''/p/library/001-a/x.md'' None = Raise TypeError \<and>
   getLevel1Id (\<lambda>given. False) fs ''/p/library/001-a/x.md'' (Some ''/p/library/'') = Return ''001''"
proof (intro conjI)
  show "getLevel1Id less_than_8 fs path None = Return [] \<or>
    getLevel1Id less_than_8 fs path None = Raise TypeError"
    by (simp add: getLevel1Id_def)
  show "getLevel1Id less_than_8 fs ''/p/library/001-a/x.md'' None = Raise TypeError"
    by (simp add: getLevel1Id_def getParentFolder_eval test_library_end_def)
  show "getLevel1Id (\<lambda>given. False) fs ''/p/library/001-a/x.md'' (Some ''/p/library/'') = Return ''001''"
    by (simp add: getLevel1Id_def)
qed

text \<open>
  Claim C9. On a path with at most one separator \<open>createFolder\<close> throws a TypeError and
  leaves the file system as it is, whether the folder exists or not, on every file
  system and with any writing calls: \<^verbatim>\<open>getParentFolder\<close> answers \<^verbatim>\<open>false\<close>, which
  \<^verbatim>\<open>existsSync\<close> does not find, and the call on \<^verbatim>\<open>false\<close> throws.
\<close>

theorem createFolder_single_separator:
  "createFolder ops (Suc (Suc n)) fs (Some ''/wiki'') = Some (Raise TypeError, fs) \<and>
   createFolder ops (Suc (Suc n)) fs (Some ''docs/'') = Some (Raise TypeError, fs)"
  by (simp add: getParentFolder_eval existsSync_value_def)


theorem failures_caught_in_walk_raised_elsewhere_witness:
  "readdirSync vanished_fs ''lib/'' = Inr ([] @ ''gone'' # []) \<and>
   listSubFolder_for vanished_fs 0 ''lib/'' 0 [] [] [] [] = Some (None, ([], [], []), []) \<and>
   \<not> test_hidden ''gone'' \<and>
   statSync vanished_fs (filePath ''lib/'' 0 ''gone'') = Inl (SystemError ''ENOENT'') \<and>
   listSubFolder vanished_fs (Suc 0) ''lib/'' 0 [] [] [] =
     Some (Return ([], [], []), [] @ [Error (SystemError ''ENOENT'')]) \<and>
   readdirSync demo_fs ''lib/'' = Inr ([''.git''] @ ''top.md'' # [''001-a'']) \<and>
   cleanFolder_for readonly_ops 0 demo_fs ''lib/'' [''.git''] = Some (Return (), demo_fs) \<and>
   statSync demo_fs (replace_ampersand ''lib/'' @ ''top.md'') = Inr False \<and>
   unlinkSync readonly_ops demo_fs (replace_ampersand ''lib/'' @ ''top.md'') = Inl (SystemError ''EROFS'') \<and>
   cleanFolder readonly_ops (Suc 0) demo_fs ''lib/'' = Some (Raise (SystemError ''EROFS''), demo_fs) \<and>
   existsSync_value demo_fs (getParentFolder ''lib/001-a/new'') \<and>
   \<not> existsSync demo_fs ''lib/001-a/new'' \<and>
   mkdirSync readonly_ops demo_fs ''lib/001-a/new'' 511 = Inl (SystemError ''EROFS'') \<and>
   createFolder readonly_ops (Suc 0) demo_fs (Some ''lib/001-a/new'') =
     Some (Raise (SystemError ''EROFS''), demo_fs) \<and>
   \<not> existsSync_value demo_fs (getParentFolder ''lib/new/x'') \<and>
   createFolder one_folder_ops (Suc 0) demo_fs (getParentFolder ''lib/new/x'') =
     Some (Return (), demo_fs\<lparr>existsSync := (\<lambda>q. q = ''lib/new/'' \<or> existsSync demo_fs q)\<rparr>) \<and>
   createFolder one_folder_ops (Suc 0)
       (demo_fs\<lparr>existsSync := (\<lambda>q. q = ''lib/new/'' \<or> existsSync demo_fs q)\<rparr>)
       (Some ''lib/new/x'') =
     Some (Raise (SystemError ''EACCES''),
       demo_fs\<lparr>existsSync := (\<lambda>q. q = ''lib/new/'' \<or> existsSync demo_fs q)\<rparr>) \<and>
   createFolder one_folder_ops (Suc (Suc 0)) demo_fs (Some ''lib/new/x'') =
     Some (Raise (SystemError ''EACCES''),
       demo_fs\<lparr>existsSync := (\<lambda>q. q = ''lib/new/'' \<or> existsSync demo_fs q)\<rparr>)"
proof -
  note inst = failures_caught_in_walk_raised_elsewhere
    [where fs = vanished_fs and dirPath = "''lib/''" and pre = "[]" and name = "''gone''"
      and post = "[]" and n = 0 and depth = 0 and tree = "[]" and list = "[]" and files = "[]"
      and acc = "([], [], [])" and out_pre = "[]" and err = "SystemError ''ENOENT''"]
  have w: "readdirSync vanished_fs ''lib/'' = Inr ([] @ ''gone'' # [])"
    "listSubFolder_for vanished_fs 0 ''lib/'' 0 [] [] [] [] = Some (None, ([], [], []), [])"
    "\<not> test_hidden ''gone''"
    "statSync vanished_fs (filePath ''lib/'' 0 ''gone'') = Inl (SystemError ''ENOENT'')"
    by (simp_all add: vanished_fs_def filePath_def)
  have a: "listSubFolder vanished_fs (Suc 0) ''lib/'' 0 [] [] [] =
     Some (Return ([], [], []), [] @ [Error (SystemError ''ENOENT'')])"
    by (rule inst [THEN conjunct1, THEN mp]) (intro conjI w)
  note inst' = failures_caught_in_walk_raised_elsewhere
    [where fs = demo_fs and ops = readonly_ops and path = "''lib/''" and items_done = "[''.git'']"
      and item = "''top.md''" and items_left = "[''001-a'']" and n = 0 and fs_now = demo_fs
      and err = "SystemError ''EROFS''"]
  have c: "readdirSync demo_fs ''lib/'' = Inr ([''.git''] @ ''top.md'' # [''001-a''])"
    "cleanFolder_for readonly_ops 0 demo_fs ''lib/'' [''.git''] = Some (Return (), demo_fs)"
    "statSync demo_fs (replace_ampersand ''lib/'' @ ''top.md'') = Inr False"
    "unlinkSync readonly_ops demo_fs (replace_ampersand ''lib/'' @ ''top.md'') = Inl (SystemError ''EROFS'')"
    by (simp_all add: demo_fs_def [THEN arg_cong [where f = readdirSync]]
        demo_fs_def [THEN arg_cong [where f = statSync]] replace_ampersand_def readonly_ops_def)
  have b: "cleanFolder readonly_ops (Suc 0) demo_fs ''lib/'' = Some (Raise (SystemError ''EROFS''), demo_fs)"
    by (rule inst' [THEN conjunct2, THEN conjunct2, THEN conjunct1, THEN mp,
          THEN conjunct2, THEN conjunct1, THEN mp])
      (intro conjI c)+
  note inst'' = failures_caught_in_walk_raised_elsewhere
    [where fs = demo_fs and ops = readonly_ops and path = "''lib/001-a/new''" and n = 0
      and err = "SystemError ''EROFS''"]
  have m: "existsSync_value demo_fs (getParentFolder ''lib/001-a/new'')"
    "\<not> existsSync demo_fs ''lib/001-a/new''"
    "mkdirSync readonly_ops demo_fs ''lib/001-a/new'' 511 = Inl (SystemError ''EROFS'')"
    by (simp_all add: demo_fs_def [THEN arg_cong [where f = existsSync]] getParentFolder_eval
        existsSync_value_def readonly_ops_def)
  have d: "createFolder readonly_ops (Suc 0) demo_fs (Some ''lib/001-a/new'') =
     Some (Raise (SystemError ''EROFS''), demo_fs)"
    by (rule inst'' [THEN conjunct2, THEN conjunct2, THEN conjunct2, THEN conjunct1, THEN mp])
      (intro conjI m)
  let ?made = "demo_fs\<lparr>existsSync := (\<lambda>q. q = ''lib/new/'' \<or> existsSync demo_fs q)\<rparr>"
  note inst_nested = failures_caught_in_walk_raised_elsewhere
    [where fs = demo_fs and ops = one_folder_ops and path = "''lib/new/x''" and n = "Suc 0"
      and fs_sub = ?made and fs_end = ?made and err = "SystemError ''EACCES''"]
  have s: "\<not> existsSync_value demo_fs (getParentFolder ''lib/new/x'')"
    "createFolder one_folder_ops (Suc 0) demo_fs (getParentFolder ''lib/new/x'') =
       Some (Return (), ?made)"
    "createFolder one_folder_ops (Suc 0) ?made (Some ''lib/new/x'') =
       Some (Raise (SystemError ''EACCES''), ?made)"
    by (simp_all add: demo_fs_def [THEN arg_cong [where f = existsSync]] getParentFolder_eval
        existsSync_value_def one_folder_ops_def)
  have e: "createFolder one_folder_ops (Suc (Suc 0)) demo_fs (Some ''lib/new/x'') =
     Some (Raise (SystemError ''EACCES''), ?made)"
    by (rule inst_nested [THEN conjunct2, THEN conjunct2, THEN conjunct2, THEN conjunct2,
          THEN conjunct2, THEN conjunct2, THEN conjunct1, THEN mp])
      (intro conjI s)
  from w a c b m d s e show ?thesis by blast
qed

end
